theory Spec2Isabelle
  imports Main "HOL-Library.Word"
begin

section \<open>Security-rule validation of s2n-tls\<close>

text \<open>
  A shallow embedding of \<^verbatim>\<open>tls/s2n_security_rules.c\<close>. Pointers that the code tests
  against NULL are options (\<open>None\<close> is NULL). A function that mutates
  \<^verbatim>\<open>*result\<close> and returns an \<^verbatim>\<open>S2N_RESULT\<close> becomes a function that returns the
  status together with the object behind the pointer after the call: what was written
  before an early return stays written.
\<close>

subsection \<open>Errors and results\<close>

text \<open>
  The error codes met here: \<^verbatim>\<open>RESULT_ENSURE_REF\<close> raises \<open>S2N_ERR_NULL\<close>, the range
  checks raise \<open>S2N_ERR_SAFETY\<close>, the buffer raises the next two, the lookup of a policy
  name the fifth; \<open>S2N_ERR_OTHER\<close> stands for any other code that a validator may
  return.
\<close>

datatype s2n_error =
    S2N_ERR_NULL
  | S2N_ERR_SAFETY
  | S2N_ERR_ALLOC
  | S2N_ERR_RESIZE_STATIC_STUFFER
  | S2N_ERR_INVALID_SECURITY_POLICY
  | S2N_ERR_OTHER nat

datatype s2n_result = S2N_RESULT_OK | S2N_RESULT_ERROR s2n_error

text \<open>
  \<^verbatim>\<open>RESULT_GUARD(x)\<close>: return the error of \<open>x\<close> at once, otherwise go on. The state
  that \<open>x\<close> left behind is kept on both paths.
\<close>

definition RESULT_GUARD ::
  "s2n_result \<times> 's \<Rightarrow> ('s \<Rightarrow> s2n_result \<times> 's) \<Rightarrow> s2n_result \<times> 's" where
  "RESULT_GUARD x k =
     (case x of
        (S2N_RESULT_OK, st) \<Rightarrow> k st
      | (S2N_RESULT_ERROR e, st) \<Rightarrow> (S2N_RESULT_ERROR e, st))"

subsection \<open>The primitive catalogs\<close>

text \<open>
  Of \<^verbatim>\<open>struct s2n_kex\<close>, \<^verbatim>\<open>struct s2n_cipher_suite\<close>, \<^verbatim>\<open>struct s2n_signature_scheme\<close>
  and \<^verbatim>\<open>struct s2n_ecc_named_curve\<close> only the fields read by this file are kept.
\<close>

record s2n_kex =
  is_ephemeral :: bool

record s2n_cipher_suite =
  suite_name :: string
  key_exchange_alg :: "s2n_kex option"

record s2n_signature_scheme =
  iana_value :: "16 word"

record s2n_ecc_named_curve =
  curve_name :: string

text \<open>
  A preference list (\<^verbatim>\<open>count\<close> and an array of \<^verbatim>\<open>count\<close> pointers) is the list of its
  entries; the pointer to the preference structure may be NULL, and so may each entry.
\<close>

record s2n_security_policy =
  version :: "string option"
  cipher_preferences :: "s2n_cipher_suite option list option"
  signature_preferences :: "s2n_signature_scheme option list option"
  certificate_signature_preferences :: "s2n_signature_scheme option list option"
  ecc_preferences :: "s2n_ecc_named_curve option list option"
  rules :: "64 word"

text \<open>
  Modelled from the spec: \<^verbatim>\<open>s2n_security_policy_get_version\<close> is defined in another
  file. The spec gives a policy "an optional display name" read through an accessor
  "that may report unavailable"; the field \<open>version\<close> holds that name.
\<close>

definition s2n_security_policy_get_version :: "s2n_security_policy \<Rightarrow> s2n_error + string" where
  "s2n_security_policy_get_version policy =
     (case version policy of
        None \<Rightarrow> Inl S2N_ERR_INVALID_SECURITY_POLICY
      | Some v \<Rightarrow> Inr v)"

subsection \<open>The growable output buffer\<close>

text \<open>
  Modelled from the spec: \<^verbatim>\<open>struct s2n_stuffer\<close> is declared in another file. The spec
  describes "a growable append-only text buffer"; the model keeps the bytes written so
  far and whether the buffer may grow. The zero value holds nothing and may not grow.
\<close>

record s2n_stuffer =
  data :: string
  growable :: bool

definition s2n_stuffer_zero :: s2n_stuffer where
  "s2n_stuffer_zero = \<lparr>data = [], growable = False\<rparr>"

text \<open>
  The allocator is a parameter of the functions that write: \<open>mem n\<close> says that a buffer
  can be grown to hold \<open>n\<close> bytes.
\<close>

type_synonym s2n_mem = "nat \<Rightarrow> bool"

text \<open>
  Modelled from the spec: \<^verbatim>\<open>s2n_stuffer_growable_alloc\<close> is defined in another file.
  Initialisation "allocates an empty growable buffer", and "all other accumulator
  operations", other than growing the buffer during capture, "cannot fail".
\<close>

definition s2n_stuffer_growable_alloc :: "s2n_stuffer \<Rightarrow> nat \<Rightarrow> s2n_error + s2n_stuffer" where
  "s2n_stuffer_growable_alloc stuffer size0 = Inr \<lparr>data = [], growable = True\<rparr>"

text \<open>
  Modelled from the spec: the write of bytes at the end of a buffer, common to
  \<^verbatim>\<open>s2n_stuffer_vprintf\<close> and \<^verbatim>\<open>s2n_stuffer_write_char\<close>, which are defined in another
  file. A write appends, "growing it as needed", and "buffer growth failure during
  capture is a hard error": it fails on a buffer that may not grow and when the allocator
  refuses the new size, and then leaves the buffer as it was.
\<close>

definition s2n_stuffer_write :: "s2n_mem \<Rightarrow> s2n_stuffer \<Rightarrow> string \<Rightarrow> s2n_error + s2n_stuffer" where
  "s2n_stuffer_write mem stuffer bytes =
     (if \<not> growable stuffer then Inl S2N_ERR_RESIZE_STATIC_STUFFER
      else if \<not> mem (length (data stuffer) + length bytes) then Inl S2N_ERR_ALLOC
      else Inr (stuffer\<lparr>data := data stuffer @ bytes\<rparr>))"

text \<open>
  Modelled from the spec: \<^verbatim>\<open>s2n_stuffer_vprintf\<close> is defined in another file. It "formats
  one line" and "appends it"; the argument \<open>text\<close> is the format already applied to its
  arguments.
\<close>

definition s2n_stuffer_vprintf :: "s2n_mem \<Rightarrow> s2n_stuffer \<Rightarrow> string \<Rightarrow> s2n_error + s2n_stuffer" where
  "s2n_stuffer_vprintf mem stuffer text = s2n_stuffer_write mem stuffer text"

text \<open>
  Modelled from the spec: \<^verbatim>\<open>s2n_stuffer_write_char\<close> is defined in another file. It
  appends one character, here the "single trailing line break".
\<close>

definition s2n_stuffer_write_char :: "s2n_mem \<Rightarrow> s2n_stuffer \<Rightarrow> char \<Rightarrow> s2n_error + s2n_stuffer" where
  "s2n_stuffer_write_char mem stuffer c = s2n_stuffer_write mem stuffer [c]"

text \<open>
  Modelled from the spec: \<^verbatim>\<open>s2n_stuffer_free\<close> is defined in another file. Release
  "frees any buffer (no-op if none)" and cannot fail; the buffer is the zero value
  afterwards.
\<close>

definition s2n_stuffer_free :: "s2n_stuffer \<Rightarrow> s2n_error + s2n_stuffer" where
  "s2n_stuffer_free stuffer = Inr s2n_stuffer_zero"

subsection \<open>printf conversions\<close>

text \<open>
  The two formats of \<^verbatim>\<open>s2n_security_rule_validate_policy\<close> use \<^verbatim>\<open>%s\<close>, \<^verbatim>\<open>%x\<close> and
  \<^verbatim>\<open>%i\<close>. \<^verbatim>\<open>%x\<close> prints an unsigned value in lower-case hexadecimal without leading
  zeros, \<^verbatim>\<open>%i\<close> a signed decimal.
\<close>

function printf_u :: "nat \<Rightarrow> string" where
  "printf_u n =
     (if n < 10 then [''0123456789'' ! n]
      else printf_u (n div 10) @ [''0123456789'' ! (n mod 10)])"
  by pat_completeness auto
termination
  by (relation "measure id") auto

declare printf_u.simps [simp del]

function printf_x :: "nat \<Rightarrow> string" where
  "printf_x n =
     (if n < 16 then [''0123456789abcdef'' ! n]
      else printf_x (n div 16) @ [''0123456789abcdef'' ! (n mod 16)])"
  by pat_completeness auto
termination
  by (relation "measure id") auto

declare printf_x.simps [simp del]

definition printf_i :: "int \<Rightarrow> string" where
  "printf_i k = (if k < 0 then CHR ''-'' # printf_u (nat (- k)) else printf_u (nat k))"

text \<open>
  \<^verbatim>\<open>"%s: policy %s: %s: %s (#%i)"\<close> and \<^verbatim>\<open>"%s: policy %s: %s: %x (#%i)"\<close>. The position
  is the \<^verbatim>\<open>size_t\<close> value \<^verbatim>\<open>i + 1\<close>, of which \<^verbatim>\<open>%i\<close> reads an \<^verbatim>\<open>int\<close>: its low 32
  bits, signed.
\<close>

definition error_msg_format_name :: "string \<Rightarrow> string \<Rightarrow> string \<Rightarrow> string \<Rightarrow> nat \<Rightarrow> string" where
  "error_msg_format_name rule_name policy_name category val pos =
     rule_name @ '': policy '' @ policy_name @ '': '' @ category @ '': '' @ val
       @ '' (#'' @ printf_i (sint (word_of_nat pos :: 32 word)) @ '')''"

definition error_msg_format_iana :: "string \<Rightarrow> string \<Rightarrow> string \<Rightarrow> 16 word \<Rightarrow> nat \<Rightarrow> string" where
  "error_msg_format_iana rule_name policy_name category val pos =
     rule_name @ '': policy '' @ policy_name @ '': '' @ category @ '': '' @ printf_x (unat val)
       @ '' (#'' @ printf_i (sint (word_of_nat pos :: 32 word)) @ '')''"

subsection \<open>The result of a validation\<close>

record s2n_security_rule_result =
  found_error :: bool
  write_output :: bool
  "output" :: s2n_stuffer

definition s2n_security_rule_result_zero :: s2n_security_rule_result where
  "s2n_security_rule_result_zero =
     \<lparr>found_error = False, write_output = False, output = s2n_stuffer_zero\<rparr>"

text \<open>
  \<^verbatim>\<open>s2n_security_rule_result_process\<close>. \<open>text\<close> is the format applied to its arguments;
  it is used on the capturing path only.
\<close>

definition s2n_security_rule_result_process ::
  "s2n_mem \<Rightarrow> s2n_security_rule_result option \<Rightarrow> bool \<Rightarrow> string
     \<Rightarrow> s2n_result \<times> s2n_security_rule_result option" where
  "s2n_security_rule_result_process mem result condition text =
     (case result of
        None \<Rightarrow> (S2N_RESULT_ERROR S2N_ERR_NULL, None)
      | Some r \<Rightarrow>
          if condition then (S2N_RESULT_OK, Some r)
          else
            let r1 = r\<lparr>found_error := True\<rparr> in
            if \<not> write_output r1 then (S2N_RESULT_OK, Some r1)
            else
              (case s2n_stuffer_vprintf mem (output r1) text of
                 Inl e \<Rightarrow> (S2N_RESULT_ERROR e, Some r1)
               | Inr out1 \<Rightarrow>
                   (case s2n_stuffer_write_char mem out1 (CHR 0x0A) of
                      Inl e \<Rightarrow> (S2N_RESULT_ERROR e, Some (r1\<lparr>output := out1\<rparr>))
                    | Inr out2 \<Rightarrow> (S2N_RESULT_OK, Some (r1\<lparr>output := out2\<rparr>)))))"

text \<open>
  \<^verbatim>\<open>s2n_security_rule_result_init_output\<close> and \<^verbatim>\<open>s2n_security_rule_result_free\<close>
  do not test \<^verbatim>\<open>result\<close> before they use it (the second tests it and then assigns
  through it all the same): on NULL the C program has no defined behaviour, which is
  the outer \<open>None\<close>.
\<close>

definition s2n_security_rule_result_init_output ::
  "s2n_security_rule_result option \<Rightarrow> (s2n_result \<times> s2n_security_rule_result option) option" where
  "s2n_security_rule_result_init_output result =
     (case result of
        None \<Rightarrow> None
      | Some r \<Rightarrow>
          (case s2n_stuffer_growable_alloc (output r) 0 of
             Inl e \<Rightarrow> Some (S2N_RESULT_ERROR e, Some r)
           | Inr out1 \<Rightarrow> Some (S2N_RESULT_OK, Some (r\<lparr>output := out1, write_output := True\<rparr>))))"

definition s2n_security_rule_result_free ::
  "s2n_security_rule_result option \<Rightarrow> (s2n_result \<times> s2n_security_rule_result option) option" where
  "s2n_security_rule_result_free result =
     (case result of
        None \<Rightarrow> None
      | Some r \<Rightarrow>
          (case s2n_stuffer_free (output r) of
             Inl e \<Rightarrow> Some (S2N_RESULT_ERROR e, Some r)
           | Inr out1 \<Rightarrow> Some (S2N_RESULT_OK, Some s2n_security_rule_result_zero)))"

subsection \<open>Rules and the registry\<close>

text \<open>
  A validator of the C code returns an \<^verbatim>\<open>S2N_RESULT\<close> and writes its verdict through
  \<^verbatim>\<open>bool *valid\<close>, which at every call is the address of a local set to false. The
  model returns the error or the value of that local after the call.
\<close>

record s2n_security_rule =
  name :: string
  validate_cipher_suite :: "s2n_cipher_suite option \<Rightarrow> s2n_error + bool"
  validate_sig_scheme :: "s2n_signature_scheme option \<Rightarrow> s2n_error + bool"
  validate_cert_sig_scheme :: "s2n_signature_scheme option \<Rightarrow> s2n_error + bool"
  validate_curve :: "s2n_ecc_named_curve option \<Rightarrow> s2n_error + bool"

definition s2n_security_rule_validate_forward_secret ::
  "s2n_cipher_suite option \<Rightarrow> s2n_error + bool" where
  "s2n_security_rule_validate_forward_secret cipher_suite =
     (case cipher_suite of
        None \<Rightarrow> Inl S2N_ERR_NULL
      | Some cs \<Rightarrow>
          (case key_exchange_alg cs of
             None \<Rightarrow> Inl S2N_ERR_NULL
           | Some kex \<Rightarrow> Inr (is_ephemeral kex)))"

definition s2n_security_rule_all_sig_schemes ::
  "s2n_signature_scheme option \<Rightarrow> s2n_error + bool" where
  "s2n_security_rule_all_sig_schemes sig_scheme = Inr True"

definition s2n_security_rule_all_curves ::
  "s2n_ecc_named_curve option \<Rightarrow> s2n_error + bool" where
  "s2n_security_rule_all_curves curve = Inr True"

text \<open>
  Modelled from the spec: the enumerator \<^verbatim>\<open>S2N_PERFECT_FORWARD_SECRECY\<close> is declared in
  the header, which is not among the sources. The spec says that the registry "defines
  exactly one entry", so the entry stands at index 0.
\<close>

definition S2N_PERFECT_FORWARD_SECRECY :: nat where
  "S2N_PERFECT_FORWARD_SECRECY = 0"

text \<open>
  Modelled from the spec: the enumerator \<^verbatim>\<open>S2N_SECURITY_RULES_COUNT\<close> is declared in the
  header, after the rule identifiers. The spec says that the identifier space "is bounded
  by a fixed count R known at build time"; with one identifier it is 1.
\<close>

definition S2N_SECURITY_RULES_COUNT :: nat where
  "S2N_SECURITY_RULES_COUNT = 1"

text \<open>
  The table \<^verbatim>\<open>security_rule_definitions\<close>: its only initialiser is the one designated by
  \<^verbatim>\<open>[S2N_PERFECT_FORWARD_SECRECY]\<close>.
\<close>

definition perfect_forward_secrecy :: s2n_security_rule where
  "perfect_forward_secrecy =
     \<lparr>name = ''Perfect Forward Secrecy'',
      validate_cipher_suite = s2n_security_rule_validate_forward_secret,
      validate_sig_scheme = s2n_security_rule_all_sig_schemes,
      validate_cert_sig_scheme = s2n_security_rule_all_sig_schemes,
      validate_curve = s2n_security_rule_all_curves\<rparr>"

definition security_rule_definitions :: "s2n_security_rule list" where
  "security_rule_definitions = [perfect_forward_secrecy]"

subsection \<open>Validating one rule\<close>

text \<open>
  The four loops of \<^verbatim>\<open>s2n_security_rule_validate_policy\<close> have one shape: for each
  entry, in order, fail on a NULL entry, call the validator of the category, and hand
  its verdict and the message for position \<open>i + 1\<close> to
  \<open>s2n_security_rule_result_process\<close>. \<open>validate_entries\<close> is that loop, started at
  \<open>i = 0\<close>.
\<close>

fun validate_entries ::
  "('a option \<Rightarrow> s2n_error + bool) \<Rightarrow> ('a \<Rightarrow> nat \<Rightarrow> string) \<Rightarrow> s2n_mem \<Rightarrow> nat \<Rightarrow> 'a option list
     \<Rightarrow> s2n_security_rule_result option \<Rightarrow> s2n_result \<times> s2n_security_rule_result option" where
  "validate_entries validate msg mem i [] result = (S2N_RESULT_OK, result)"
| "validate_entries validate msg mem i (entry # entries) result =
     (case entry of
        None \<Rightarrow> (S2N_RESULT_ERROR S2N_ERR_NULL, result)
      | Some e \<Rightarrow>
          (case validate (Some e) of
             Inl err \<Rightarrow> (S2N_RESULT_ERROR err, result)
           | Inr is_valid \<Rightarrow>
               RESULT_GUARD (s2n_security_rule_result_process mem result is_valid (msg e (i + 1)))
                 (validate_entries validate msg mem (i + 1) entries)))"

definition validate_cipher_prefs ::
  "s2n_mem \<Rightarrow> s2n_security_rule \<Rightarrow> string \<Rightarrow> s2n_security_policy
     \<Rightarrow> s2n_security_rule_result option \<Rightarrow> s2n_result \<times> s2n_security_rule_result option" where
  "validate_cipher_prefs mem rule policy_name policy result =
     (case cipher_preferences policy of
        None \<Rightarrow> (S2N_RESULT_ERROR S2N_ERR_NULL, result)
      | Some suites \<Rightarrow>
          validate_entries (validate_cipher_suite rule)
            (\<lambda>cipher_suite pos. error_msg_format_name (name rule) policy_name
               ''cipher suite'' (suite_name cipher_suite) pos)
            mem 0 suites result)"

definition validate_sig_prefs ::
  "s2n_mem \<Rightarrow> s2n_security_rule \<Rightarrow> string \<Rightarrow> s2n_security_policy
     \<Rightarrow> s2n_security_rule_result option \<Rightarrow> s2n_result \<times> s2n_security_rule_result option" where
  "validate_sig_prefs mem rule policy_name policy result =
     (case signature_preferences policy of
        None \<Rightarrow> (S2N_RESULT_ERROR S2N_ERR_NULL, result)
      | Some schemes \<Rightarrow>
          validate_entries (validate_sig_scheme rule)
            (\<lambda>sig_scheme pos. error_msg_format_iana (name rule) policy_name
               ''signature scheme'' (iana_value sig_scheme) pos)
            mem 0 schemes result)"

definition validate_cert_sig_prefs ::
  "s2n_mem \<Rightarrow> s2n_security_rule \<Rightarrow> string \<Rightarrow> s2n_security_policy
     \<Rightarrow> s2n_security_rule_result option \<Rightarrow> s2n_result \<times> s2n_security_rule_result option" where
  "validate_cert_sig_prefs mem rule policy_name policy result =
     (case certificate_signature_preferences policy of
        None \<Rightarrow> (S2N_RESULT_OK, result)
      | Some schemes \<Rightarrow>
          validate_entries (validate_cert_sig_scheme rule)
            (\<lambda>sig_scheme pos. error_msg_format_iana (name rule) policy_name
               ''certificate signature scheme'' (iana_value sig_scheme) pos)
            mem 0 schemes result)"

definition validate_ecc_prefs ::
  "s2n_mem \<Rightarrow> s2n_security_rule \<Rightarrow> string \<Rightarrow> s2n_security_policy
     \<Rightarrow> s2n_security_rule_result option \<Rightarrow> s2n_result \<times> s2n_security_rule_result option" where
  "validate_ecc_prefs mem rule policy_name policy result =
     (case ecc_preferences policy of
        None \<Rightarrow> (S2N_RESULT_ERROR S2N_ERR_NULL, result)
      | Some curves \<Rightarrow>
          validate_entries (validate_curve rule)
            (\<lambda>curve pos. error_msg_format_name (name rule) policy_name
               ''curve'' (curve_name curve) pos)
            mem 0 curves result)"

definition s2n_security_rule_validate_policy ::
  "s2n_mem \<Rightarrow> s2n_security_rule option \<Rightarrow> s2n_security_policy option
     \<Rightarrow> s2n_security_rule_result option \<Rightarrow> s2n_result \<times> s2n_security_rule_result option" where
  "s2n_security_rule_validate_policy mem rule policy result =
     (case rule of
        None \<Rightarrow> (S2N_RESULT_ERROR S2N_ERR_NULL, result)
      | Some rl \<Rightarrow>
     (case policy of
        None \<Rightarrow> (S2N_RESULT_ERROR S2N_ERR_NULL, result)
      | Some p \<Rightarrow>
     (case result of
        None \<Rightarrow> (S2N_RESULT_ERROR S2N_ERR_NULL, result)
      | Some _ \<Rightarrow>
          let policy_name =
                (case s2n_security_policy_get_version p of
                   Inl _ \<Rightarrow> ''unnamed''
                 | Inr v \<Rightarrow> v)
          in
            RESULT_GUARD (validate_cipher_prefs mem rl policy_name p result) (\<lambda>result.
            RESULT_GUARD (validate_sig_prefs mem rl policy_name p result) (\<lambda>result.
            RESULT_GUARD (validate_cert_sig_prefs mem rl policy_name p result) (\<lambda>result.
            validate_ecc_prefs mem rl policy_name p result))))))"

subsection \<open>Selecting the rules of a policy\<close>

text \<open>
  \<^verbatim>\<open>s2n_security_policy_get_security_rules\<close>, for a registry of \<open>defs_len\<close> entries and
  \<open>rules_total\<close> rule identifiers (\<^verbatim>\<open>s2n_array_len(security_rule_definitions)\<close> and
  \<^verbatim>\<open>S2N_SECURITY_RULES_COUNT\<close>). A selected rule is the address
  \<^verbatim>\<open>&security_rule_definitions[rule]\<close>, kept as the index \<open>rule\<close>; \<open>selected\<close> holds
  \<^verbatim>\<open>rules[0 .. count - 1]\<close>, so \<^verbatim>\<open>count\<close> is its length. Both range checks raise
  \<^verbatim>\<open>S2N_ERR_SAFETY\<close>; the first one is inclusive at both ends.
\<close>

function get_security_rules_loop ::
  "nat \<Rightarrow> nat \<Rightarrow> nat \<Rightarrow> nat \<Rightarrow> 64 word \<Rightarrow> nat list \<Rightarrow> s2n_error + nat list" where
  "get_security_rules_loop rules_total defs_len max_rules_count rule flags selected =
     (if rule < rules_total then
        (let is_set = (flags mod 2 \<noteq> 0);
             flags1 = drop_bit 1 flags
         in
           if \<not> is_set then
             get_security_rules_loop rules_total defs_len max_rules_count (rule + 1) flags1 selected
           else if \<not> (0 \<le> rule \<and> rule \<le> defs_len) then Inl S2N_ERR_SAFETY
           else if \<not> (length selected < max_rules_count) then Inl S2N_ERR_SAFETY
           else
             get_security_rules_loop rules_total defs_len max_rules_count (rule + 1) flags1
               (selected @ [rule]))
      else Inr selected)"
  by pat_completeness auto
termination
  by (relation "measure (\<lambda>(rules_total, defs_len, max_rules_count, rule, flags, selected).
        rules_total - rule)") auto

declare get_security_rules_loop.simps [simp del]

definition s2n_security_policy_get_security_rules ::
  "nat \<Rightarrow> nat \<Rightarrow> s2n_security_policy option \<Rightarrow> nat \<Rightarrow> s2n_error + nat list" where
  "s2n_security_policy_get_security_rules rules_total defs_len policy max_rules_count =
     (case policy of
        None \<Rightarrow> Inl S2N_ERR_NULL
      | Some p \<Rightarrow> get_security_rules_loop rules_total defs_len max_rules_count 0 (rules p) [])"

subsection \<open>Validating all the rules of a policy\<close>

text \<open>
  The loop of \<^verbatim>\<open>s2n_security_policy_validate_security_rules\<close> reads each selected
  address. An index below the length of the registry is an entry of it; the index equal
  to the length passes the inclusive check of the selection, and reading it is reading
  past the end of the array, for which the result is \<open>None\<close>.
\<close>

fun validate_rules_loop ::
  "s2n_security_rule list \<Rightarrow> s2n_mem \<Rightarrow> nat list \<Rightarrow> s2n_security_policy option
     \<Rightarrow> s2n_security_rule_result option
     \<Rightarrow> (s2n_result \<times> s2n_security_rule_result option) option" where
  "validate_rules_loop defs mem [] policy result = Some (S2N_RESULT_OK, result)"
| "validate_rules_loop defs mem (rule # rest) policy result =
     (if rule < length defs then
        (case s2n_security_rule_validate_policy mem (Some (defs ! rule)) policy result of
           (S2N_RESULT_OK, result1) \<Rightarrow> validate_rules_loop defs mem rest policy result1
         | (S2N_RESULT_ERROR e, result1) \<Rightarrow> Some (S2N_RESULT_ERROR e, result1))
      else None)"

definition s2n_security_policy_validate_security_rules ::
  "s2n_security_rule list \<Rightarrow> nat \<Rightarrow> s2n_mem \<Rightarrow> s2n_security_policy option
     \<Rightarrow> s2n_security_rule_result option
     \<Rightarrow> (s2n_result \<times> s2n_security_rule_result option) option" where
  "s2n_security_policy_validate_security_rules defs rules_total mem policy result =
     (case s2n_security_policy_get_security_rules rules_total (length defs) policy rules_total of
        Inl e \<Rightarrow> Some (S2N_RESULT_ERROR e, result)
      | Inr selected \<Rightarrow> validate_rules_loop defs mem selected policy result)"

section \<open>Notions used to state the properties\<close>

subsection \<open>The rule identifiers of a bit set\<close>

text \<open>
  The identifiers from \<open>lo\<close> up to, and without, \<open>hi\<close> whose bit is set in \<open>flags\<close>, in
  ascending order.
\<close>

definition set_bits :: "nat \<Rightarrow> nat \<Rightarrow> 64 word \<Rightarrow> nat list" where
  "set_bits lo hi flags = filter (bit flags) [lo..<hi]"

subsection \<open>Violations of a policy\<close>

text \<open>
  The entries of a preference list that may be absent, and the lists on which a loop
  meets no internal error: no entry is NULL and the validator returns a verdict for each.
\<close>

definition entries_of :: "'a option list option \<Rightarrow> 'a option list" where
  "entries_of prefs = (case prefs of None \<Rightarrow> [] | Some entries \<Rightarrow> entries)"

definition entries_ok :: "('a option \<Rightarrow> s2n_error + bool) \<Rightarrow> 'a option list \<Rightarrow> bool" where
  "entries_ok validate entries =
     list_all (\<lambda>entry. entry \<noteq> None \<and> \<not> isl (validate entry)) entries"

text \<open>
  The diagnostic lines of a category: one message for each entry whose validator returned
  the verdict false, in the order of the list, with positions counted from \<open>first\<close>. The
  number of such entries is \<open>failed_count\<close>.
\<close>

definition violation_lines ::
  "('a option \<Rightarrow> s2n_error + bool) \<Rightarrow> ('a \<Rightarrow> nat \<Rightarrow> string) \<Rightarrow> nat \<Rightarrow> 'a option list \<Rightarrow> string list" where
  "violation_lines validate msg first entries =
     [msg e pos. (pos, Some e) \<leftarrow> enumerate first entries, validate (Some e) = Inr False]"

definition failed_count :: "('a option \<Rightarrow> s2n_error + bool) \<Rightarrow> 'a option list \<Rightarrow> nat" where
  "failed_count validate entries =
     length (filter (\<lambda>entry. entry \<noteq> None \<and> validate entry = Inr False) entries)"

text \<open>
  The name under which a policy is reported, the lines of each of the four categories for
  one rule, and the number of (category entry) failures of one rule.
\<close>

definition policy_name_of :: "s2n_security_policy \<Rightarrow> string" where
  "policy_name_of policy = (case version policy of None \<Rightarrow> ''unnamed'' | Some v \<Rightarrow> v)"

definition cipher_lines :: "s2n_security_rule \<Rightarrow> s2n_security_policy \<Rightarrow> string list" where
  "cipher_lines rule policy =
     violation_lines (validate_cipher_suite rule)
       (\<lambda>cipher_suite pos. error_msg_format_name (name rule) (policy_name_of policy)
          ''cipher suite'' (suite_name cipher_suite) pos)
       1 (entries_of (cipher_preferences policy))"

definition sig_lines :: "s2n_security_rule \<Rightarrow> s2n_security_policy \<Rightarrow> string list" where
  "sig_lines rule policy =
     violation_lines (validate_sig_scheme rule)
       (\<lambda>sig_scheme pos. error_msg_format_iana (name rule) (policy_name_of policy)
          ''signature scheme'' (iana_value sig_scheme) pos)
       1 (entries_of (signature_preferences policy))"

definition cert_sig_lines :: "s2n_security_rule \<Rightarrow> s2n_security_policy \<Rightarrow> string list" where
  "cert_sig_lines rule policy =
     violation_lines (validate_cert_sig_scheme rule)
       (\<lambda>sig_scheme pos. error_msg_format_iana (name rule) (policy_name_of policy)
          ''certificate signature scheme'' (iana_value sig_scheme) pos)
       1 (entries_of (certificate_signature_preferences policy))"

definition ecc_lines :: "s2n_security_rule \<Rightarrow> s2n_security_policy \<Rightarrow> string list" where
  "ecc_lines rule policy =
     violation_lines (validate_curve rule)
       (\<lambda>curve pos. error_msg_format_name (name rule) (policy_name_of policy)
          ''curve'' (curve_name curve) pos)
       1 (entries_of (ecc_preferences policy))"

definition policy_lines :: "s2n_security_rule \<Rightarrow> s2n_security_policy \<Rightarrow> string list" where
  "policy_lines rule policy =
     cipher_lines rule policy @ sig_lines rule policy @ cert_sig_lines rule policy
       @ ecc_lines rule policy"

definition policy_failures :: "s2n_security_rule \<Rightarrow> s2n_security_policy \<Rightarrow> nat" where
  "policy_failures rule policy =
     failed_count (validate_cipher_suite rule) (entries_of (cipher_preferences policy))
     + failed_count (validate_sig_scheme rule) (entries_of (signature_preferences policy))
     + failed_count (validate_cert_sig_scheme rule)
         (entries_of (certificate_signature_preferences policy))
     + failed_count (validate_curve rule) (entries_of (ecc_preferences policy))"

definition policy_ok :: "s2n_security_rule \<Rightarrow> s2n_security_policy \<Rightarrow> bool" where
  "policy_ok rule policy =
     (cipher_preferences policy \<noteq> None
      \<and> signature_preferences policy \<noteq> None
      \<and> ecc_preferences policy \<noteq> None
      \<and> entries_ok (validate_cipher_suite rule) (entries_of (cipher_preferences policy))
      \<and> entries_ok (validate_sig_scheme rule) (entries_of (signature_preferences policy))
      \<and> entries_ok (validate_cert_sig_scheme rule)
           (entries_of (certificate_signature_preferences policy))
      \<and> entries_ok (validate_curve rule) (entries_of (ecc_preferences policy)))"

subsection \<open>Effects on the result\<close>

text \<open>
  Recording a list of violation lines: the flag is set if there is a line, and a capturing
  result gets every line followed by a line break. \<open>capture_ready\<close> says that a
  capturing result can take them: its buffer is growable and the allocator never refuses.
\<close>

definition record_violations :: "s2n_security_rule_result \<Rightarrow> string list \<Rightarrow> s2n_security_rule_result" where
  "record_violations r lines =
     r\<lparr>found_error := found_error r \<or> lines \<noteq> [],
       output := (if write_output r
                  then (output r)\<lparr>data := data (output r) @ concat (map (\<lambda>l. l @ [CHR 0x0A]) lines)\<rparr>
                  else output r)\<rparr>"

definition capture_ready :: "s2n_mem \<Rightarrow> s2n_security_rule_result \<Rightarrow> bool" where
  "capture_ready mem r = (write_output r \<longrightarrow> growable (output r) \<and> (\<forall>n. mem n))"

text \<open>
  \<open>keeps_found_error f\<close>: a step \<open>f\<close> started with the flag set ends with the flag
  set, whatever status it returns. \<open>same_found_error a b\<close>: two outcomes carry the same
  flag, and they return the same status unless the flag is set. \<open>agree f g\<close>: started
  on results with the same flag, \<open>f\<close> and \<open>g\<close> end so.
\<close>

definition keeps_found_error ::
  "(s2n_security_rule_result option \<Rightarrow> s2n_result \<times> s2n_security_rule_result option) \<Rightarrow> bool" where
  "keeps_found_error f =
     (\<forall>r. found_error r \<longrightarrow> (\<exists>s r1. f (Some r) = (s, Some r1) \<and> found_error r1))"

definition same_found_error ::
  "s2n_result \<times> s2n_security_rule_result option
     \<Rightarrow> s2n_result \<times> s2n_security_rule_result option \<Rightarrow> bool" where
  "same_found_error a b =
     (\<exists>r1 r2. snd a = Some r1 \<and> snd b = Some r2 \<and> found_error r1 = found_error r2
        \<and> (fst a = fst b \<or> found_error r1))"

definition agree ::
  "(s2n_security_rule_result option \<Rightarrow> s2n_result \<times> s2n_security_rule_result option)
     \<Rightarrow> (s2n_security_rule_result option \<Rightarrow> s2n_result \<times> s2n_security_rule_result option)
     \<Rightarrow> bool" where
  "agree f g =
     (\<forall>r1 r2. found_error r1 = found_error r2 \<longrightarrow> same_found_error (f (Some r1)) (g (Some r2)))"

text \<open>The flag of the result behind a pointer, if there is one.\<close>

definition found_error_of :: "s2n_security_rule_result option \<Rightarrow> bool option" where
  "found_error_of result = map_option found_error result"

subsection \<open>All the active rules\<close>

text \<open>
  The rules that a policy activates in a registry of \<open>rules_total\<close> identifiers, the
  lines of all of them in the order of validation, and the number of (rule, category
  entry) pairs that fail.
\<close>

definition active_rules :: "s2n_security_rule list \<Rightarrow> nat \<Rightarrow> s2n_security_policy \<Rightarrow> s2n_security_rule list" where
  "active_rules defs rules_total policy =
     map (\<lambda>rule. defs ! rule) (set_bits 0 rules_total (rules policy))"

definition all_lines :: "s2n_security_rule list \<Rightarrow> nat \<Rightarrow> s2n_security_policy \<Rightarrow> string list" where
  "all_lines defs rules_total policy =
     concat (map (\<lambda>rule. policy_lines rule policy) (active_rules defs rules_total policy))"

definition all_failures :: "s2n_security_rule list \<Rightarrow> nat \<Rightarrow> s2n_security_policy \<Rightarrow> nat" where
  "all_failures defs rules_total policy =
     sum_list (map (\<lambda>rule. policy_failures rule policy) (active_rules defs rules_total policy))"

subsection \<open>A test policy\<close>

text \<open>
  The policy of the end-to-end example: named \<^verbatim>\<open>test_all_ciphers\<close>, with the Perfect
  Forward Secrecy rule, an ephemeral and a non-ephemeral cipher suite, one signature
  scheme, one curve and no certificate signature preferences.
\<close>

definition DHE_SUITE :: s2n_cipher_suite where
  "DHE_SUITE = \<lparr>suite_name = ''DHE_SUITE'', key_exchange_alg = Some \<lparr>is_ephemeral = True\<rparr>\<rparr>"

definition RSA_SUITE :: s2n_cipher_suite where
  "RSA_SUITE = \<lparr>suite_name = ''RSA_SUITE'', key_exchange_alg = Some \<lparr>is_ephemeral = False\<rparr>\<rparr>"

definition test_all_ciphers :: s2n_security_policy where
  "test_all_ciphers =
     \<lparr>version = Some ''test_all_ciphers'',
      cipher_preferences = Some [Some DHE_SUITE, Some RSA_SUITE],
      signature_preferences = Some [Some \<lparr>iana_value = 0x0403\<rparr>],
      certificate_signature_preferences = None,
      ecc_preferences = Some [Some \<lparr>curve_name = ''secp256r1''\<rparr>],
      rules = 1\<rparr>"

definition unlimited :: s2n_mem where
  "unlimited n = True"

definition capturing :: s2n_security_rule_result where
  "capturing =
     \<lparr>found_error = False, write_output = True, output = \<lparr>data = [], growable = True\<rparr>\<rparr>"

text \<open>
  The same policy for any signature scheme and any curve, and a policy with a certificate
  signature list and two non-ephemeral cipher suites.
\<close>

definition pfs_policy ::
  "s2n_signature_scheme \<Rightarrow> s2n_ecc_named_curve \<Rightarrow> s2n_security_policy" where
  "pfs_policy sig_scheme curve =
     \<lparr>version = Some ''test_all_ciphers'',
      cipher_preferences = Some [Some DHE_SUITE, Some RSA_SUITE],
      signature_preferences = Some [Some sig_scheme],
      certificate_signature_preferences = None,
      ecc_preferences = Some [Some curve],
      rules = 1\<rparr>"

definition test_two_violations :: s2n_security_policy where
  "test_two_violations =
     \<lparr>version = None,
      cipher_preferences = Some [Some RSA_SUITE, Some DHE_SUITE, Some RSA_SUITE],
      signature_preferences = Some [Some \<lparr>iana_value = 0x0403\<rparr>],
      certificate_signature_preferences = Some [Some \<lparr>iana_value = 0x0804\<rparr>],
      ecc_preferences = Some [Some \<lparr>curve_name = ''secp256r1''\<rparr>],
      rules = 1\<rparr>"

section \<open>Lemmas\<close>

subsection \<open>Sequencing\<close>

lemma RESULT_GUARD_ok [simp]: "RESULT_GUARD (S2N_RESULT_OK, st) k = k st"
  by (simp add: RESULT_GUARD_def)

lemma RESULT_GUARD_error [simp]:
  "RESULT_GUARD (S2N_RESULT_ERROR e, st) k = (S2N_RESULT_ERROR e, st)"
  by (simp add: RESULT_GUARD_def)

subsection \<open>Recording one verdict\<close>

lemma process_valid:
  "s2n_security_rule_result_process mem (Some r) True text = (S2N_RESULT_OK, Some r)"
  by (simp add: s2n_security_rule_result_process_def)

lemma process_silent:
  "\<not> write_output r \<Longrightarrow>
   s2n_security_rule_result_process mem (Some r) False text
     = (S2N_RESULT_OK, Some (r\<lparr>found_error := True\<rparr>))"
  by (simp add: s2n_security_rule_result_process_def)

lemma process_run:
  "capture_ready mem r \<Longrightarrow>
   s2n_security_rule_result_process mem (Some r) is_valid text
     = (S2N_RESULT_OK, Some (record_violations r (if is_valid then [] else [text])))"
  by (auto simp: s2n_security_rule_result_process_def capture_ready_def record_violations_def
        s2n_stuffer_vprintf_def s2n_stuffer_write_char_def s2n_stuffer_write_def Let_def)

subsection \<open>The flag is kept\<close>

lemma keeps_found_errorD:
  "keeps_found_error f \<Longrightarrow> found_error r \<Longrightarrow> \<exists>s r1. f (Some r) = (s, Some r1) \<and> found_error r1"
  by (simp add: keeps_found_error_def)

lemma keeps_process: "keeps_found_error (\<lambda>res. s2n_security_rule_result_process mem res c text)"
  unfolding keeps_found_error_def
  by (cases c) (auto simp: s2n_security_rule_result_process_def Let_def split: sum.splits)

lemma keeps_const: "keeps_found_error (\<lambda>res. (s, res))"
  by (simp add: keeps_found_error_def)

lemma guard_found_error:
  assumes "keeps_found_error g" and "found_error r"
  shows "\<exists>s1 r1. RESULT_GUARD (s, Some r) g = (s1, Some r1) \<and> found_error r1"
proof (cases s)
  case S2N_RESULT_OK
  with keeps_found_errorD [OF assms] show ?thesis by simp
next
  case (S2N_RESULT_ERROR e)
  with assms(2) show ?thesis by simp
qed

lemma keeps_guard:
  assumes "keeps_found_error f" and "keeps_found_error g"
  shows "keeps_found_error (\<lambda>res. RESULT_GUARD (f res) g)"
  unfolding keeps_found_error_def
proof (intro allI impI)
  fix r :: s2n_security_rule_result
  assume fe: "found_error r"
  from keeps_found_errorD [OF assms(1) fe]
  obtain s r1 where f: "f (Some r) = (s, Some r1)" and fe1: "found_error r1" by blast
  show "\<exists>s r1. RESULT_GUARD (f (Some r)) g = (s, Some r1) \<and> found_error r1"
  proof (cases s)
    case S2N_RESULT_OK
    with f keeps_found_errorD [OF assms(2) fe1] show ?thesis by simp
  next
    case (S2N_RESULT_ERROR e)
    with f fe1 show ?thesis by simp
  qed
qed

lemma keeps_entries: "keeps_found_error (validate_entries validate msg mem i entries)"
proof (induction entries arbitrary: i)
  case Nil
  show ?case by (simp add: keeps_found_error_def)
next
  case (Cons entry entries)
  show ?case
  proof (cases entry)
    case None
    then show ?thesis by (simp add: keeps_found_error_def)
  next
    case (Some e)
    show ?thesis
    proof (cases "validate (Some e)")
      case (Inl err)
      with Some show ?thesis by (simp add: keeps_found_error_def)
    next
      case (Inr is_valid)
      have "keeps_found_error (\<lambda>res. RESULT_GUARD
              (s2n_security_rule_result_process mem res is_valid (msg e (i + 1)))
              (validate_entries validate msg mem (i + 1) entries))"
        by (rule keeps_guard [OF keeps_process Cons.IH])
      with Some Inr show ?thesis by (simp add: keeps_found_error_def)
    qed
  qed
qed

lemma keeps_cipher_prefs: "keeps_found_error (validate_cipher_prefs mem rule pn p)"
  by (cases "cipher_preferences p")
     (simp_all add: validate_cipher_prefs_def [abs_def] keeps_const keeps_entries)

lemma keeps_sig_prefs: "keeps_found_error (validate_sig_prefs mem rule pn p)"
  by (cases "signature_preferences p")
     (simp_all add: validate_sig_prefs_def [abs_def] keeps_const keeps_entries)

lemma keeps_cert_sig_prefs: "keeps_found_error (validate_cert_sig_prefs mem rule pn p)"
  by (cases "certificate_signature_preferences p")
     (simp_all add: validate_cert_sig_prefs_def [abs_def] keeps_const keeps_entries)

lemma keeps_ecc_prefs: "keeps_found_error (validate_ecc_prefs mem rule pn p)"
  by (cases "ecc_preferences p")
     (simp_all add: validate_ecc_prefs_def [abs_def] keeps_const keeps_entries)

lemma keeps_validate_policy:
  "keeps_found_error (s2n_security_rule_validate_policy mem rule policy)"
proof (cases rule)
  case None
  then show ?thesis by (simp add: s2n_security_rule_validate_policy_def keeps_found_error_def)
next
  case rl: (Some rl)
  show ?thesis
  proof (cases policy)
    case None
    with rl show ?thesis by (simp add: s2n_security_rule_validate_policy_def keeps_found_error_def)
  next
    case (Some p)
    define pn where "pn = (case s2n_security_policy_get_version p of Inl _ \<Rightarrow> ''unnamed'' | Inr v \<Rightarrow> v)"
    have "keeps_found_error (\<lambda>res.
            RESULT_GUARD (validate_cipher_prefs mem rl pn p res) (\<lambda>result.
            RESULT_GUARD (validate_sig_prefs mem rl pn p result) (\<lambda>result.
            RESULT_GUARD (validate_cert_sig_prefs mem rl pn p result) (\<lambda>result.
            validate_ecc_prefs mem rl pn p result))))"
      by (intro keeps_guard keeps_cipher_prefs keeps_sig_prefs keeps_cert_sig_prefs keeps_ecc_prefs)
    then show ?thesis
      using rl Some
      by (simp add: s2n_security_rule_validate_policy_def keeps_found_error_def pn_def Let_def)
  qed
qed

lemma keeps_rules_loop:
  "found_error r \<Longrightarrow> validate_rules_loop defs mem selected policy (Some r) = Some out
     \<Longrightarrow> \<exists>s r1. out = (s, Some r1) \<and> found_error r1"
proof (induction selected arbitrary: r)
  case Nil
  then show ?case by auto
next
  case (Cons rule rest)
  from Cons.prems(2) have inr: "rule < length defs" by (simp split: if_splits)
  from keeps_found_errorD [OF keeps_validate_policy Cons.prems(1)]
  obtain s x where
    vp: "s2n_security_rule_validate_policy mem (Some (defs ! rule)) policy (Some r) = (s, Some x)"
    and fx: "found_error x" by blast
  show ?case
  proof (cases s)
    case S2N_RESULT_OK
    with Cons.prems(2) inr vp have "validate_rules_loop defs mem rest policy (Some x) = Some out"
      by simp
    from Cons.IH [OF fx this] show ?thesis .
  next
    case (S2N_RESULT_ERROR e)
    with Cons.prems(2) inr vp fx show ?thesis by auto
  qed
qed

subsection \<open>The flag does not depend on the buffer\<close>

lemma agreeD:
  "agree f g \<Longrightarrow> found_error r1 = found_error r2 \<Longrightarrow> same_found_error (f (Some r1)) (g (Some r2))"
  by (simp add: agree_def)

lemma agree_const: "agree (\<lambda>res. (s, res)) (\<lambda>res. (s, res))"
  by (simp add: agree_def same_found_error_def)

lemma agree_guard:
  assumes f: "agree f1 f2" and g: "agree g1 g2"
    and k1: "keeps_found_error g1" and k2: "keeps_found_error g2"
  shows "agree (\<lambda>res. RESULT_GUARD (f1 res) g1) (\<lambda>res. RESULT_GUARD (f2 res) g2)"
  unfolding agree_def
proof (intro allI impI)
  fix r1 r2 :: s2n_security_rule_result
  assume eq: "found_error r1 = found_error r2"
  from agreeD [OF f eq] obtain s1 x1 s2 x2 where
    a: "f1 (Some r1) = (s1, Some x1)" and b: "f2 (Some r2) = (s2, Some x2)"
    and fe: "found_error x1 = found_error x2" and st: "s1 = s2 \<or> found_error x1"
    unfolding same_found_error_def by (metis fst_conv prod.collapse snd_conv)
  show "same_found_error (RESULT_GUARD (f1 (Some r1)) g1) (RESULT_GUARD (f2 (Some r2)) g2)"
  proof (cases "found_error x1")
    case True
    with fe have t2: "found_error x2" by simp
    from guard_found_error [OF k1 True, of s1] guard_found_error [OF k2 t2, of s2]
    show ?thesis unfolding a b same_found_error_def by auto
  next
    case False
    with st have same: "s1 = s2" by simp
    show ?thesis
    proof (cases s1)
      case S2N_RESULT_OK
      with same a b agreeD [OF g fe] show ?thesis by simp
    next
      case (S2N_RESULT_ERROR e)
      with same have "s2 = S2N_RESULT_ERROR e" by simp
      with S2N_RESULT_ERROR a b fe show ?thesis by (simp add: same_found_error_def)
    qed
  qed
qed

lemma agree_process:
  "agree (\<lambda>res. s2n_security_rule_result_process mem1 res c text1)
         (\<lambda>res. s2n_security_rule_result_process mem2 res c text2)"
  unfolding agree_def same_found_error_def
  by (cases c) (auto simp: s2n_security_rule_result_process_def Let_def split: sum.splits)

lemma agree_entries:
  "agree (validate_entries validate msg1 mem1 i entries) (validate_entries validate msg2 mem2 i entries)"
proof (induction entries arbitrary: i)
  case Nil
  show ?case by (simp add: agree_def same_found_error_def)
next
  case (Cons entry entries)
  show ?case
  proof (cases entry)
    case None
    then show ?thesis by (simp add: agree_def same_found_error_def)
  next
    case (Some e)
    show ?thesis
    proof (cases "validate (Some e)")
      case (Inl err)
      with Some show ?thesis by (simp add: agree_def same_found_error_def)
    next
      case (Inr is_valid)
      have "agree
              (\<lambda>res. RESULT_GUARD
                 (s2n_security_rule_result_process mem1 res is_valid (msg1 e (i + 1)))
                 (validate_entries validate msg1 mem1 (i + 1) entries))
              (\<lambda>res. RESULT_GUARD
                 (s2n_security_rule_result_process mem2 res is_valid (msg2 e (i + 1)))
                 (validate_entries validate msg2 mem2 (i + 1) entries))"
        by (rule agree_guard [OF agree_process Cons.IH keeps_entries keeps_entries])
      with Some Inr show ?thesis by (simp add: agree_def)
    qed
  qed
qed

lemma agree_cipher_prefs:
  "agree (validate_cipher_prefs mem1 rule pn p) (validate_cipher_prefs mem2 rule pn p)"
  by (cases "cipher_preferences p")
     (simp_all add: validate_cipher_prefs_def [abs_def] agree_const agree_entries)

lemma agree_sig_prefs:
  "agree (validate_sig_prefs mem1 rule pn p) (validate_sig_prefs mem2 rule pn p)"
  by (cases "signature_preferences p")
     (simp_all add: validate_sig_prefs_def [abs_def] agree_const agree_entries)

lemma agree_cert_sig_prefs:
  "agree (validate_cert_sig_prefs mem1 rule pn p) (validate_cert_sig_prefs mem2 rule pn p)"
  by (cases "certificate_signature_preferences p")
     (simp_all add: validate_cert_sig_prefs_def [abs_def] agree_const agree_entries)

lemma agree_ecc_prefs:
  "agree (validate_ecc_prefs mem1 rule pn p) (validate_ecc_prefs mem2 rule pn p)"
  by (cases "ecc_preferences p")
     (simp_all add: validate_ecc_prefs_def [abs_def] agree_const agree_entries)

lemma agree_validate_policy:
  "agree (s2n_security_rule_validate_policy mem1 rule policy)
         (s2n_security_rule_validate_policy mem2 rule policy)"
proof (cases rule)
  case None
  then show ?thesis
    by (simp add: s2n_security_rule_validate_policy_def agree_def same_found_error_def)
next
  case rl: (Some rl)
  show ?thesis
  proof (cases policy)
    case None
    with rl show ?thesis
      by (simp add: s2n_security_rule_validate_policy_def agree_def same_found_error_def)
  next
    case (Some p)
    define pn where
      "pn = (case s2n_security_policy_get_version p of Inl _ \<Rightarrow> ''unnamed'' | Inr v \<Rightarrow> v)"
    have "agree
           (\<lambda>res.
              RESULT_GUARD (validate_cipher_prefs mem1 rl pn p res) (\<lambda>result.
              RESULT_GUARD (validate_sig_prefs mem1 rl pn p result) (\<lambda>result.
              RESULT_GUARD (validate_cert_sig_prefs mem1 rl pn p result) (\<lambda>result.
              validate_ecc_prefs mem1 rl pn p result))))
           (\<lambda>res.
              RESULT_GUARD (validate_cipher_prefs mem2 rl pn p res) (\<lambda>result.
              RESULT_GUARD (validate_sig_prefs mem2 rl pn p result) (\<lambda>result.
              RESULT_GUARD (validate_cert_sig_prefs mem2 rl pn p result) (\<lambda>result.
              validate_ecc_prefs mem2 rl pn p result))))"
      by (intro agree_guard keeps_guard agree_cipher_prefs agree_sig_prefs
            agree_cert_sig_prefs agree_ecc_prefs keeps_sig_prefs keeps_cert_sig_prefs
            keeps_ecc_prefs)
    then show ?thesis
      using rl Some
      by (simp add: s2n_security_rule_validate_policy_def agree_def pn_def Let_def)
  qed
qed

lemma agree_rules_loop:
  "found_error r1 = found_error r2
     \<Longrightarrow> validate_rules_loop defs mem1 selected policy (Some r1) = Some a
     \<Longrightarrow> validate_rules_loop defs mem2 selected policy (Some r2) = Some b
     \<Longrightarrow> same_found_error a b"
proof (induction selected arbitrary: r1 r2)
  case Nil
  then show ?case by (auto simp: same_found_error_def)
next
  case (Cons rule rest)
  from Cons.prems(2) have inr: "rule < length defs" by (simp split: if_splits)
  from agreeD [OF agree_validate_policy Cons.prems(1)]
  obtain s1 x1 s2 x2 where
    a: "s2n_security_rule_validate_policy mem1 (Some (defs ! rule)) policy (Some r1) = (s1, Some x1)"
    and b: "s2n_security_rule_validate_policy mem2 (Some (defs ! rule)) policy (Some r2) = (s2, Some x2)"
    and fe: "found_error x1 = found_error x2" and st: "s1 = s2 \<or> found_error x1"
    unfolding same_found_error_def by (metis fst_conv prod.collapse snd_conv)
  show ?case
  proof (cases "found_error x1")
    case True
    with fe have t2: "found_error x2" by simp
    have "\<exists>s r. a = (s, Some r) \<and> found_error r"
    proof (cases s1)
      case S2N_RESULT_OK
      with Cons.prems(2) inr a have "validate_rules_loop defs mem1 rest policy (Some x1) = Some a"
        by simp
      from keeps_rules_loop [OF True this] show ?thesis .
    next
      case (S2N_RESULT_ERROR e)
      with Cons.prems(2) inr a True show ?thesis by auto
    qed
    moreover have "\<exists>s r. b = (s, Some r) \<and> found_error r"
    proof (cases s2)
      case S2N_RESULT_OK
      with Cons.prems(3) inr b have "validate_rules_loop defs mem2 rest policy (Some x2) = Some b"
        by simp
      from keeps_rules_loop [OF t2 this] show ?thesis .
    next
      case (S2N_RESULT_ERROR e)
      with Cons.prems(3) inr b t2 show ?thesis by auto
    qed
    ultimately show ?thesis by (auto simp: same_found_error_def)
  next
    case False
    with st have same: "s1 = s2" by simp
    show ?thesis
    proof (cases s1)
      case S2N_RESULT_OK
      with same Cons.prems(2,3) inr a b
      have "validate_rules_loop defs mem1 rest policy (Some x1) = Some a"
        and "validate_rules_loop defs mem2 rest policy (Some x2) = Some b"
        by simp_all
      from Cons.IH [OF fe this] show ?thesis .
    next
      case (S2N_RESULT_ERROR e)
      with same Cons.prems(2,3) inr a b fe show ?thesis by (auto simp: same_found_error_def)
    qed
  qed
qed

lemma rules_loop_defined:
  "\<forall>rule \<in> set selected. rule < length defs
     \<Longrightarrow> \<exists>out. validate_rules_loop defs mem selected policy result = Some out"
  by (induction selected arbitrary: result) (auto split: prod.splits s2n_result.splits)

subsection \<open>The selection loop\<close>

lemma drop_bit_is_set: "(drop_bit n (w :: 64 word) mod 2 \<noteq> 0) = bit w n"
  by (simp add: bit_iff_odd_drop_bit odd_iff_mod_2_eq_one)

lemma set_bits_step:
  "rule < rules_total \<Longrightarrow>
   set_bits rule rules_total flags =
     (if bit flags rule then [rule] else []) @ set_bits (rule + 1) rules_total flags"
  by (simp add: set_bits_def upt_conv_Cons)

lemma set_bits_done: "\<not> rule < rules_total \<Longrightarrow> set_bits rule rules_total flags = []"
  by (simp add: set_bits_def)

lemma get_security_rules_loop_eq:
  "flags = drop_bit rule flags0 \<Longrightarrow>
   get_security_rules_loop rules_total defs_len max_rules_count rule flags selected =
     (if (\<forall>i \<in> set (set_bits rule rules_total flags0). i \<le> defs_len)
         \<and> (set_bits rule rules_total flags0 = []
              \<or> length selected + length (set_bits rule rules_total flags0) \<le> max_rules_count)
      then Inr (selected @ set_bits rule rules_total flags0)
      else Inl S2N_ERR_SAFETY)"
proof (induction rules_total defs_len max_rules_count rule flags selected
    rule: get_security_rules_loop.induct)
  case (1 rules_total defs_len max_rules_count rule flags selected)
  show ?case
  proof (cases "rule < rules_total")
    case False
    then show ?thesis
      by (subst get_security_rules_loop.simps) (simp add: set_bits_done)
  next
    case True
    have next_flags: "drop_bit 1 flags = drop_bit (rule + 1) flags0"
      using "1.prems" by (simp add: drop_bit_drop_bit)
    have is_set: "(flags mod 2 \<noteq> 0) = bit flags0 rule"
      using "1.prems" drop_bit_is_set [of rule flags0] by simp
    show ?thesis
    proof (cases "bit flags0 rule")
      case unset: False
      with is_set have "\<not> (flags mod 2 \<noteq> 0)" by simp
      from "1.IH"(1) [OF True refl refl this next_flags] True unset is_set
      show ?thesis
        by (subst get_security_rules_loop.simps) (simp add: set_bits_step)
    next
      case set: True
      with is_set have odd: "\<not> \<not> (flags mod 2 \<noteq> 0)" by simp
      show ?thesis
      proof (cases "rule \<le> defs_len")
        case out: False
        with True set is_set show ?thesis
          by (subst get_security_rules_loop.simps) (auto simp: set_bits_step)
      next
        case inr: True
        show ?thesis
        proof (cases "length selected < max_rules_count")
          case full: False
          with True set is_set inr show ?thesis
            by (subst get_security_rules_loop.simps) (auto simp: set_bits_step)
        next
          case room: True
          have r1: "\<not> \<not> (0 \<le> rule \<and> rule \<le> defs_len)" using inr by simp
          have r2: "\<not> \<not> length selected < max_rules_count" using room by simp
          from "1.IH"(2) [OF True refl refl odd r1 r2 next_flags] True set is_set inr room
          show ?thesis
            by (subst get_security_rules_loop.simps) (auto simp: set_bits_step)
        qed
      qed
    qed
  qed
qed

lemma set_bits_zero: "set_bits lo hi 0 = []"
  by (simp add: set_bits_def)

lemma set_bits_bound: "i \<in> set (set_bits lo hi flags) \<Longrightarrow> i < hi"
  by (simp add: set_bits_def)

lemma length_set_bits_le: "length (set_bits lo hi flags) \<le> hi - lo"
  unfolding set_bits_def by (rule order_trans [OF length_filter_le]) simp

lemma length_set_bits_card: "length (set_bits 0 hi flags) = card {i. i < hi \<and> bit flags i}"
proof -
  have "distinct (set_bits 0 hi flags)" by (simp add: set_bits_def)
  then have "length (set_bits 0 hi flags) = card (set (set_bits 0 hi flags))"
    by (simp add: distinct_card)
  also have "set (set_bits 0 hi flags) = {i. i < hi \<and> bit flags i}"
    by (auto simp: set_bits_def)
  finally show ?thesis .
qed

lemma sorted_set_bits: "sorted (set_bits lo hi flags) \<and> distinct (set_bits lo hi flags)"
  by (simp add: set_bits_def sorted_wrt_filter)

subsection \<open>Runs without internal error\<close>

lemma violation_lines_Nil [simp]: "violation_lines validate msg first [] = []"
  by (simp add: violation_lines_def)

lemma violation_lines_Cons:
  "violation_lines validate msg first (entry # entries) =
     (case entry of
        None \<Rightarrow> []
      | Some e \<Rightarrow> if validate (Some e) = Inr False then [msg e first] else [])
     @ violation_lines validate msg (Suc first) entries"
  by (simp add: violation_lines_def split: option.splits)

lemma length_violation_lines:
  "length (violation_lines validate msg first entries) = failed_count validate entries"
proof (induction entries arbitrary: first)
  case Nil
  show ?case by (simp add: failed_count_def)
next
  case (Cons entry entries)
  from Cons.IH [of "Suc first"] show ?case
    by (cases entry) (simp_all add: violation_lines_Cons failed_count_def)
qed

lemma record_violations_Nil [simp]: "record_violations r [] = r"
  by (simp add: record_violations_def)

lemma record_violations_append:
  "record_violations (record_violations r xs) ys = record_violations r (xs @ ys)"
  by (auto simp: record_violations_def)

lemma capture_ready_record [simp]:
  "capture_ready mem (record_violations r lines) = capture_ready mem r"
  by (simp add: capture_ready_def record_violations_def)

lemma entries_run:
  "entries_ok validate entries \<Longrightarrow> capture_ready mem r \<Longrightarrow>
   validate_entries validate msg mem i entries (Some r)
     = (S2N_RESULT_OK, Some (record_violations r (violation_lines validate msg (i + 1) entries)))"
proof (induction entries arbitrary: i r)
  case Nil
  show ?case by simp
next
  case (Cons entry entries)
  from Cons.prems(1) obtain e is_valid where
    entry: "entry = Some e" and v: "validate (Some e) = Inr is_valid"
    and rest: "entries_ok validate entries"
    by (cases entry; cases "validate entry") (auto simp: entries_ok_def)
  let ?r1 = "record_violations r (if is_valid then [] else [msg e (i + 1)])"
  have ready: "capture_ready mem ?r1" using Cons.prems(2) by simp
  have "validate_entries validate msg mem i (entry # entries) (Some r)
          = validate_entries validate msg mem (i + 1) entries (Some ?r1)"
    using entry v process_run [OF Cons.prems(2)] by simp
  also have "\<dots> = (S2N_RESULT_OK,
      Some (record_violations ?r1 (violation_lines validate msg (i + 1 + 1) entries)))"
    by (rule Cons.IH [OF rest ready])
  finally show ?case
    using entry v by (simp add: record_violations_append violation_lines_Cons)
qed

lemma length_policy_lines: "length (policy_lines rule policy) = policy_failures rule policy"
  by (simp add: policy_lines_def policy_failures_def cipher_lines_def sig_lines_def
        cert_sig_lines_def ecc_lines_def length_violation_lines)

lemma policy_name_of_eq:
  "(case s2n_security_policy_get_version p of Inl _ \<Rightarrow> ''unnamed'' | Inr v \<Rightarrow> v) = policy_name_of p"
  by (simp add: s2n_security_policy_get_version_def policy_name_of_def split: option.splits)

lemma cipher_prefs_run:
  "cipher_preferences p \<noteq> None
     \<Longrightarrow> entries_ok (validate_cipher_suite rule) (entries_of (cipher_preferences p))
     \<Longrightarrow> capture_ready mem r
     \<Longrightarrow> validate_cipher_prefs mem rule (policy_name_of p) p (Some r)
           = (S2N_RESULT_OK, Some (record_violations r (cipher_lines rule p)))"
  by (auto simp: validate_cipher_prefs_def cipher_lines_def entries_of_def entries_run)

lemma sig_prefs_run:
  "signature_preferences p \<noteq> None
     \<Longrightarrow> entries_ok (validate_sig_scheme rule) (entries_of (signature_preferences p))
     \<Longrightarrow> capture_ready mem r
     \<Longrightarrow> validate_sig_prefs mem rule (policy_name_of p) p (Some r)
           = (S2N_RESULT_OK, Some (record_violations r (sig_lines rule p)))"
  by (auto simp: validate_sig_prefs_def sig_lines_def entries_of_def entries_run)

lemma cert_sig_prefs_run:
  "entries_ok (validate_cert_sig_scheme rule) (entries_of (certificate_signature_preferences p))
     \<Longrightarrow> capture_ready mem r
     \<Longrightarrow> validate_cert_sig_prefs mem rule (policy_name_of p) p (Some r)
           = (S2N_RESULT_OK, Some (record_violations r (cert_sig_lines rule p)))"
  by (cases "certificate_signature_preferences p")
     (simp_all add: validate_cert_sig_prefs_def cert_sig_lines_def entries_of_def entries_run)

lemma ecc_prefs_run:
  "ecc_preferences p \<noteq> None
     \<Longrightarrow> entries_ok (validate_curve rule) (entries_of (ecc_preferences p))
     \<Longrightarrow> capture_ready mem r
     \<Longrightarrow> validate_ecc_prefs mem rule (policy_name_of p) p (Some r)
           = (S2N_RESULT_OK, Some (record_violations r (ecc_lines rule p)))"
  by (auto simp: validate_ecc_prefs_def ecc_lines_def entries_of_def entries_run)

lemma validate_policy_run:
  assumes ok: "policy_ok rule p" and ready: "capture_ready mem r"
  shows "s2n_security_rule_validate_policy mem (Some rule) (Some p) (Some r)
           = (S2N_RESULT_OK, Some (record_violations r (policy_lines rule p)))"
proof -
  from ok have c: "cipher_preferences p \<noteq> None"
      "entries_ok (validate_cipher_suite rule) (entries_of (cipher_preferences p))"
    and s: "signature_preferences p \<noteq> None"
      "entries_ok (validate_sig_scheme rule) (entries_of (signature_preferences p))"
    and cs: "entries_ok (validate_cert_sig_scheme rule)
      (entries_of (certificate_signature_preferences p))"
    and e: "ecc_preferences p \<noteq> None"
      "entries_ok (validate_curve rule) (entries_of (ecc_preferences p))"
    by (simp_all add: policy_ok_def)
  let ?r1 = "record_violations r (cipher_lines rule p)"
  let ?r2 = "record_violations ?r1 (sig_lines rule p)"
  let ?r3 = "record_violations ?r2 (cert_sig_lines rule p)"
  have r1: "capture_ready mem ?r1" and r2: "capture_ready mem ?r2" and r3: "capture_ready mem ?r3"
    using ready by simp_all
  have "s2n_security_rule_validate_policy mem (Some rule) (Some p) (Some r)
          = (S2N_RESULT_OK, Some (record_violations ?r3 (ecc_lines rule p)))"
    by (simp add: s2n_security_rule_validate_policy_def policy_name_of_eq Let_def
          cipher_prefs_run [OF c ready] sig_prefs_run [OF s r1] cert_sig_prefs_run [OF cs r2]
          ecc_prefs_run [OF e r3])
  also have "record_violations ?r3 (ecc_lines rule p) = record_violations r (policy_lines rule p)"
    by (simp add: record_violations_append policy_lines_def)
  finally show ?thesis .
qed

lemma rules_loop_run:
  "\<forall>rule \<in> set selected. rule < length defs \<and> policy_ok (defs ! rule) p
     \<Longrightarrow> capture_ready mem r
     \<Longrightarrow> validate_rules_loop defs mem selected (Some p) (Some r)
           = Some (S2N_RESULT_OK,
               Some (record_violations r (concat (map (\<lambda>rule. policy_lines (defs ! rule) p) selected))))"
proof (induction selected arbitrary: r)
  case Nil
  show ?case by simp
next
  case (Cons rule rest)
  from Cons.prems(1) have inr: "rule < length defs" and ok: "policy_ok (defs ! rule) p"
    and rest: "\<forall>rule \<in> set rest. rule < length defs \<and> policy_ok (defs ! rule) p"
    by simp_all
  let ?r1 = "record_violations r (policy_lines (defs ! rule) p)"
  have ready: "capture_ready mem ?r1" using Cons.prems(2) by simp
  show ?case
    using inr validate_policy_run [OF ok Cons.prems(2)] Cons.IH [OF rest ready]
    by (simp add: record_violations_append)
qed

subsection \<open>Selection and validation of all rules\<close>

lemma get_security_rules_eq:
  "s2n_security_policy_get_security_rules rules_total defs_len (Some policy) max_rules_count =
     (if (\<forall>i \<in> set (set_bits 0 rules_total (rules policy)). i \<le> defs_len)
         \<and> length (set_bits 0 rules_total (rules policy)) \<le> max_rules_count
      then Inr (set_bits 0 rules_total (rules policy))
      else Inl S2N_ERR_SAFETY)"
proof -
  have "rules policy = drop_bit 0 (rules policy)" by simp
  from get_security_rules_loop_eq [OF this, of rules_total defs_len max_rules_count "[]"]
  show ?thesis
    by (auto simp: s2n_security_policy_get_security_rules_def)
qed

lemma validate_security_rules_eq:
  "s2n_security_policy_validate_security_rules defs rules_total mem (Some policy) result =
     (if \<forall>i \<in> set (set_bits 0 rules_total (rules policy)). i \<le> length defs
      then validate_rules_loop defs mem (set_bits 0 rules_total (rules policy)) (Some policy) result
      else Some (S2N_RESULT_ERROR S2N_ERR_SAFETY, result))"
  using length_set_bits_le [of 0 rules_total "rules policy"]
  by (simp add: s2n_security_policy_validate_security_rules_def get_security_rules_eq)

lemma validate_security_rules_null:
  "s2n_security_policy_validate_security_rules defs rules_total mem None result =
     Some (S2N_RESULT_ERROR S2N_ERR_NULL, result)"
  by (simp add: s2n_security_policy_validate_security_rules_def
        s2n_security_policy_get_security_rules_def)

lemma validate_security_rules_defined:
  assumes "rules_total \<le> length defs"
  shows "\<exists>out. s2n_security_policy_validate_security_rules defs rules_total mem policy result
           = Some out"
proof (cases policy)
  case None
  then show ?thesis by (simp add: validate_security_rules_null)
next
  case (Some p)
  have "\<forall>rule \<in> set (set_bits 0 rules_total (rules p)). rule < length defs"
    using assms set_bits_bound by fastforce
  from rules_loop_defined [OF this] Some show ?thesis
    by (simp add: validate_security_rules_eq)
qed

lemma keeps_validate_security_rules:
  assumes "found_error r"
    and "s2n_security_policy_validate_security_rules defs rules_total mem policy (Some r) = Some out"
  shows "\<exists>s r1. out = (s, Some r1) \<and> found_error r1"
proof (cases policy)
  case None
  with assms show ?thesis by (auto simp: validate_security_rules_null)
next
  case (Some p)
  show ?thesis
  proof (cases "\<forall>i \<in> set (set_bits 0 rules_total (rules p)). i \<le> length defs")
    case True
    with assms(2) Some
    have "validate_rules_loop defs mem (set_bits 0 rules_total (rules p)) (Some p) (Some r) = Some out"
      by (simp add: validate_security_rules_eq)
    from keeps_rules_loop [OF assms(1) this] show ?thesis .
  next
    case False
    with assms Some show ?thesis by (auto simp: validate_security_rules_eq)
  qed
qed

lemma agree_validate_security_rules:
  assumes "found_error r1 = found_error r2"
    and "s2n_security_policy_validate_security_rules defs rules_total mem1 policy (Some r1) = Some a"
    and "s2n_security_policy_validate_security_rules defs rules_total mem2 policy (Some r2) = Some b"
  shows "same_found_error a b"
proof (cases policy)
  case None
  with assms show ?thesis by (auto simp: validate_security_rules_null same_found_error_def)
next
  case (Some p)
  show ?thesis
  proof (cases "\<forall>i \<in> set (set_bits 0 rules_total (rules p)). i \<le> length defs")
    case True
    with assms(2,3) Some
    have "validate_rules_loop defs mem1 (set_bits 0 rules_total (rules p)) (Some p) (Some r1) = Some a"
      and "validate_rules_loop defs mem2 (set_bits 0 rules_total (rules p)) (Some p) (Some r2) = Some b"
      by (simp_all add: validate_security_rules_eq)
    from agree_rules_loop [OF assms(1) this] show ?thesis .
  next
    case False
    with assms Some show ?thesis by (auto simp: validate_security_rules_eq same_found_error_def)
  qed
qed

lemma same_found_error_of:
  "same_found_error a b \<Longrightarrow>
     \<exists>flag. found_error_of (snd a) = Some flag \<and> found_error_of (snd b) = Some flag"
  by (auto simp: same_found_error_def found_error_of_def)

lemma set_bits_take_bit: "set_bits 0 rules_total (take_bit rules_total flags) = set_bits 0 rules_total flags"
  unfolding set_bits_def by (rule filter_cong) (auto simp: bit_take_bit_iff)

lemma set_set_bits: "set (set_bits 0 hi flags) = {i. i < hi \<and> bit flags i}"
  by (auto simp: set_bits_def)

lemma bit_10: "bit (10 :: 64 word) i = (i = 1 \<or> i = 3)"
proof (cases "i < 4")
  case True
  then have "i = 0 \<or> i = 1 \<or> i = 2 \<or> i = 3" by arith
  then show ?thesis by (elim disjE) simp_all
next
  case False
  then have "4 \<le> i" by simp
  have "(10 :: 64 word) = take_bit 4 10" by simp
  then have "bit (10 :: 64 word) i = bit (take_bit 4 (10 :: 64 word)) i" by simp
  also have "\<dots> = False" using False by (simp only: bit_take_bit_iff) simp
  finally have unset: "\<not> bit (10 :: 64 word) i" by blast
  have "\<not> (i = 1 \<or> i = 3)" using \<open>4 \<le> i\<close> by arith
  with unset show ?thesis by blast
qed

lemma set_bits_4_3: "set_bits 0 4 (3 :: 64 word) = [0, 1]"
  by code_simp

lemma set_bits_one: "set_bits 0 S2N_SECURITY_RULES_COUNT (1 :: 64 word) = [0]"
  by code_simp

lemma registry_complete: "S2N_SECURITY_RULES_COUNT \<le> length security_rule_definitions"
  by (simp add: S2N_SECURITY_RULES_COUNT_def security_rule_definitions_def)

subsection \<open>Lines and counts\<close>

lemma length_all_lines: "length (all_lines defs rules_total policy) = all_failures defs rules_total policy"
  by (simp add: all_lines_def all_failures_def length_concat comp_def length_policy_lines)

lemma record_violations_capturing:
  "write_output r \<Longrightarrow>
   record_violations r lines =
     r\<lparr>found_error := found_error r \<or> lines \<noteq> [],
       output := (output r)\<lparr>data := data (output r) @ concat (map (\<lambda>l. l @ [CHR 0x0A]) lines)\<rparr>\<rparr>"
  by (simp add: record_violations_def)




subsection \<open>The test policies\<close>

lemma printf_i_2: "printf_i 2 = ''2''"
  by code_simp


lemma policy_ok_test_two_violations: "policy_ok perfect_forward_secrecy test_two_violations"
  by (simp add: policy_ok_def test_two_violations_def entries_ok_def entries_of_def
        perfect_forward_secrecy_def s2n_security_rule_validate_forward_secret_def
        s2n_security_rule_all_sig_schemes_def s2n_security_rule_all_curves_def
        RSA_SUITE_def DHE_SUITE_def)



lemma all_lines_test_two_violations:
  "all_lines security_rule_definitions S2N_SECURITY_RULES_COUNT test_two_violations =
     [''Perfect Forward Secrecy: policy unnamed: cipher suite: RSA_SUITE (#1)'',
      ''Perfect Forward Secrecy: policy unnamed: cipher suite: RSA_SUITE (#3)'']"
  by code_simp

lemma all_failures_test_two_violations:
  "all_failures security_rule_definitions S2N_SECURITY_RULES_COUNT test_two_violations = 2"
  by code_simp

lemma init_output_zero:
  "s2n_security_rule_result_init_output (Some s2n_security_rule_result_zero)
     = Some (S2N_RESULT_OK, Some capturing)"
  by (simp add: s2n_security_rule_result_init_output_def s2n_stuffer_growable_alloc_def
        s2n_security_rule_result_zero_def capturing_def)

lemma silent_test_all_ciphers:
  "s2n_security_rule_validate_policy unlimited (Some perfect_forward_secrecy)
     (Some test_all_ciphers) (Some s2n_security_rule_result_zero)
   = (S2N_RESULT_OK, Some \<lparr>found_error = True, write_output = False, output = s2n_stuffer_zero\<rparr>)"
  by code_simp

lemma silent_all_test_all_ciphers:
  "s2n_security_policy_validate_security_rules security_rule_definitions
     S2N_SECURITY_RULES_COUNT unlimited (Some test_all_ciphers) (Some s2n_security_rule_result_zero)
   = Some (S2N_RESULT_OK,
       Some \<lparr>found_error = True, write_output = False, output = s2n_stuffer_zero\<rparr>)"
  by code_simp

lemma select_42:
  "s2n_security_policy_get_security_rules 4 4 (Some (test_all_ciphers\<lparr>rules := 42\<rparr>)) 4
     = Inr [1, 3]"
  by code_simp

lemma bits_42_low: "\<forall>i < (4::nat). bit (rules (test_all_ciphers\<lparr>rules := 42\<rparr>)) i \<longrightarrow> i < (4::nat)"
  by simp







section \<open>Properties of the specification\<close>

text \<open>
  C1. The flag \<open>found_error\<close> after validating one rule, and after validating all
  active rules, is the same on a result for which capture was enabled by
  \<open>s2n_security_rule_result_init_output\<close> as on the result without capture, for every
  rule, policy and registry. It holds for every allocator, also one that refuses to grow
  the buffer: the flag is set before the write is tried. Validating all rules returns
  whenever the registry has an entry for each of the \<open>rules_total\<close> identifiers.
\<close>

theorem found_error_independent_of_capture:
  "s2n_security_rule_result_init_output (Some r) = Some (S2N_RESULT_OK, Some rc) \<Longrightarrow>
     (\<exists>flag.
        found_error_of (snd (s2n_security_rule_validate_policy mem rule policy (Some rc))) = Some flag
        \<and> found_error_of (snd (s2n_security_rule_validate_policy mem rule policy (Some r))) = Some flag)
   \<and> (\<forall>a b.
        s2n_security_policy_validate_security_rules defs rules_total mem policy (Some rc) = Some a
        \<longrightarrow> s2n_security_policy_validate_security_rules defs rules_total mem policy (Some r) = Some b
        \<longrightarrow> (\<exists>flag. found_error_of (snd a) = Some flag \<and> found_error_of (snd b) = Some flag))
   \<and> (rules_total \<le> length defs \<longrightarrow>
        s2n_security_policy_validate_security_rules defs rules_total mem policy (Some rc) \<noteq> None
        \<and> s2n_security_policy_validate_security_rules defs rules_total mem policy (Some r) \<noteq> None)"
proof (intro conjI allI impI)
  assume init: "s2n_security_rule_result_init_output (Some r) = Some (S2N_RESULT_OK, Some rc)"
  then have eq: "found_error rc = found_error r"
    by (auto simp: s2n_security_rule_result_init_output_def s2n_stuffer_growable_alloc_def)
  show "\<exists>flag.
        found_error_of (snd (s2n_security_rule_validate_policy mem rule policy (Some rc))) = Some flag
        \<and> found_error_of (snd (s2n_security_rule_validate_policy mem rule policy (Some r))) = Some flag"
    by (rule same_found_error_of [OF agreeD [OF agree_validate_policy eq]])
  fix a b
  assume "s2n_security_policy_validate_security_rules defs rules_total mem policy (Some rc) = Some a"
    and "s2n_security_policy_validate_security_rules defs rules_total mem policy (Some r) = Some b"
  from agree_validate_security_rules [OF eq this]
  show "\<exists>flag. found_error_of (snd a) = Some flag \<and> found_error_of (snd b) = Some flag"
    by (rule same_found_error_of)
next
  assume "rules_total \<le> length defs"
  from validate_security_rules_defined [OF this]
  show "s2n_security_policy_validate_security_rules defs rules_total mem policy (Some rc) \<noteq> None"
    by auto
next
  assume "rules_total \<le> length defs"
  from validate_security_rules_defined [OF this]
  show "s2n_security_policy_validate_security_rules defs rules_total mem policy (Some r) \<noteq> None"
    by auto
qed

theorem found_error_independent_of_capture_witness:
  "s2n_security_rule_result_init_output (Some s2n_security_rule_result_zero)
     = Some (S2N_RESULT_OK, Some capturing)
   \<and> found_error_of (snd (s2n_security_rule_validate_policy unlimited
        (Some perfect_forward_secrecy) (Some test_all_ciphers) (Some capturing))) = Some True
   \<and> found_error_of (snd (s2n_security_rule_validate_policy unlimited
        (Some perfect_forward_secrecy) (Some test_all_ciphers)
        (Some s2n_security_rule_result_zero))) = Some True
   \<and> (\<exists>a. s2n_security_policy_validate_security_rules security_rule_definitions
          S2N_SECURITY_RULES_COUNT unlimited (Some test_all_ciphers) (Some capturing) = Some a
        \<and> found_error_of (snd a) = Some True)"
proof -
  note t = found_error_independent_of_capture [OF init_output_zero,
      of unlimited "Some perfect_forward_secrecy" "Some test_all_ciphers"
        security_rule_definitions S2N_SECURITY_RULES_COUNT]
  have one: "found_error_of (snd (s2n_security_rule_validate_policy unlimited
        (Some perfect_forward_secrecy) (Some test_all_ciphers)
        (Some s2n_security_rule_result_zero))) = Some True"
    by (simp add: silent_test_all_ciphers found_error_of_def)
  with t have cap: "found_error_of (snd (s2n_security_rule_validate_policy unlimited
        (Some perfect_forward_secrecy) (Some test_all_ciphers) (Some capturing))) = Some True"
    by auto
  from t registry_complete obtain a where
    a: "s2n_security_policy_validate_security_rules security_rule_definitions
          S2N_SECURITY_RULES_COUNT unlimited (Some test_all_ciphers) (Some capturing) = Some a"
    by blast
  with t silent_all_test_all_ciphers have "found_error_of (snd a) = Some True"
    by (auto simp: found_error_of_def)
  with a one cap init_output_zero show ?thesis by blast
qed

text \<open>
  C2. Violations do not stop the validation. With capture enabled on a growable buffer and
  an allocator that never refuses, on a policy whose lists hold no NULL entry and whose
  validators return a verdict (no internal error), validating one rule and validating all
  active rules succeed, and the buffer grows by exactly one line, each followed by a line
  break, for every entry of every present category whose validator returned false, in
  order: the number of lines is the number of failing (rule, category entry) pairs, summed
  over the active rules.
\<close>

theorem all_violations_recorded:
  "write_output r \<Longrightarrow> growable (output r) \<Longrightarrow> \<forall>n. mem n \<Longrightarrow>
     (policy_ok rule policy \<longrightarrow>
        s2n_security_rule_validate_policy mem (Some rule) (Some policy) (Some r)
          = (S2N_RESULT_OK,
             Some (r\<lparr>found_error := found_error r \<or> policy_lines rule policy \<noteq> [],
                     output := (output r)\<lparr>data := data (output r)
                       @ concat (map (\<lambda>l. l @ [CHR 0x0A]) (policy_lines rule policy))\<rparr>\<rparr>))
        \<and> length (policy_lines rule policy) = policy_failures rule policy)
   \<and> ((\<forall>i < rules_total. bit (rules policy) i \<longrightarrow> i < length defs \<and> policy_ok (defs ! i) policy) \<longrightarrow>
        s2n_security_policy_validate_security_rules defs rules_total mem (Some policy) (Some r)
          = Some (S2N_RESULT_OK,
             Some (r\<lparr>found_error := found_error r \<or> all_lines defs rules_total policy \<noteq> [],
                     output := (output r)\<lparr>data := data (output r)
                       @ concat (map (\<lambda>l. l @ [CHR 0x0A]) (all_lines defs rules_total policy))\<rparr>\<rparr>))
        \<and> length (all_lines defs rules_total policy) = all_failures defs rules_total policy)"
proof (intro conjI impI)
  assume w: "write_output r" and g: "growable (output r)" and m: "\<forall>n. mem n"
  then have ready: "capture_ready mem r" by (simp add: capture_ready_def)
  show "length (policy_lines rule policy) = policy_failures rule policy"
    by (rule length_policy_lines)
  show "length (all_lines defs rules_total policy) = all_failures defs rules_total policy"
    by (rule length_all_lines)
  {
    assume ok: "policy_ok rule policy"
    show "s2n_security_rule_validate_policy mem (Some rule) (Some policy) (Some r)
          = (S2N_RESULT_OK,
             Some (r\<lparr>found_error := found_error r \<or> policy_lines rule policy \<noteq> [],
                     output := (output r)\<lparr>data := data (output r)
                       @ concat (map (\<lambda>l. l @ [CHR 0x0A]) (policy_lines rule policy))\<rparr>\<rparr>))"
      using validate_policy_run [OF ok ready] by (simp add: record_violations_capturing [OF w])
  }
  {
    assume ok: "\<forall>i < rules_total. bit (rules policy) i \<longrightarrow> i < length defs \<and> policy_ok (defs ! i) policy"
    then have sel: "\<forall>rule \<in> set (set_bits 0 rules_total (rules policy)).
        rule < length defs \<and> policy_ok (defs ! rule) policy"
      by (simp add: set_bits_def)
    then have inr: "\<forall>i \<in> set (set_bits 0 rules_total (rules policy)). i \<le> length defs"
      by auto
    have lines: "concat (map (\<lambda>rule. policy_lines (defs ! rule) policy)
        (set_bits 0 rules_total (rules policy))) = all_lines defs rules_total policy"
      by (simp add: all_lines_def active_rules_def comp_def)
    show "s2n_security_policy_validate_security_rules defs rules_total mem (Some policy) (Some r)
          = Some (S2N_RESULT_OK,
             Some (r\<lparr>found_error := found_error r \<or> all_lines defs rules_total policy \<noteq> [],
                     output := (output r)\<lparr>data := data (output r)
                       @ concat (map (\<lambda>l. l @ [CHR 0x0A]) (all_lines defs rules_total policy))\<rparr>\<rparr>))"
      using rules_loop_run [OF sel ready] inr
      by (simp add: validate_security_rules_eq lines record_violations_capturing [OF w])
  }
qed

theorem all_violations_recorded_witness:
  "s2n_security_policy_validate_security_rules security_rule_definitions
     S2N_SECURITY_RULES_COUNT unlimited (Some test_two_violations) (Some capturing)
     = Some (S2N_RESULT_OK,
         Some \<lparr>found_error = True, write_output = True,
               output = \<lparr>data =
                 ''Perfect Forward Secrecy: policy unnamed: cipher suite: RSA_SUITE (#1)'' @ [CHR 0x0A]
                 @ ''Perfect Forward Secrecy: policy unnamed: cipher suite: RSA_SUITE (#3)'' @ [CHR 0x0A],
                 growable = True\<rparr>\<rparr>)
   \<and> all_failures security_rule_definitions S2N_SECURITY_RULES_COUNT test_two_violations = 2"
proof -
  have w: "write_output capturing" and g: "growable (output capturing)"
    by (simp_all add: capturing_def)
  have m: "\<forall>n. unlimited n" by (simp add: unlimited_def)
  have ok: "\<forall>i < S2N_SECURITY_RULES_COUNT. bit (rules test_two_violations) i \<longrightarrow>
      i < length security_rule_definitions
      \<and> policy_ok (security_rule_definitions ! i) test_two_violations"
    using policy_ok_test_two_violations
    by (simp add: S2N_SECURITY_RULES_COUNT_def security_rule_definitions_def)
  from all_violations_recorded [OF w g m, of perfect_forward_secrecy test_two_violations
      S2N_SECURITY_RULES_COUNT security_rule_definitions] ok
  show ?thesis
    by (simp add: all_lines_test_two_violations all_failures_test_two_violations capturing_def)
qed

text \<open>
  C3. The registry has exactly one entry, named "Perfect Forward Secrecy". For a cipher
  suite with a key-exchange descriptor its cipher-suite validator returns the verdict
  valid exactly when the descriptor is ephemeral; its validators for signature schemes,
  certificate signature schemes and curves return the verdict valid for every argument.
\<close>

theorem perfect_forward_secrecy_registry:
  "length security_rule_definitions = 1
   \<and> name (security_rule_definitions ! S2N_PERFECT_FORWARD_SECRECY) = ''Perfect Forward Secrecy''
   \<and> (key_exchange_alg cipher_suite = Some kex \<longrightarrow>
        validate_cipher_suite (security_rule_definitions ! S2N_PERFECT_FORWARD_SECRECY)
          (Some cipher_suite) = Inr (is_ephemeral kex))
   \<and> validate_sig_scheme (security_rule_definitions ! S2N_PERFECT_FORWARD_SECRECY)
        sig_scheme = Inr True
   \<and> validate_cert_sig_scheme (security_rule_definitions ! S2N_PERFECT_FORWARD_SECRECY)
        sig_scheme = Inr True
   \<and> validate_curve (security_rule_definitions ! S2N_PERFECT_FORWARD_SECRECY) curve = Inr True"
  by (simp add: security_rule_definitions_def S2N_PERFECT_FORWARD_SECRECY_def
        perfect_forward_secrecy_def s2n_security_rule_validate_forward_secret_def
        s2n_security_rule_all_sig_schemes_def s2n_security_rule_all_curves_def)

theorem perfect_forward_secrecy_registry_witness:
  "key_exchange_alg DHE_SUITE = Some \<lparr>is_ephemeral = True\<rparr>
   \<and> validate_cipher_suite (security_rule_definitions ! S2N_PERFECT_FORWARD_SECRECY)
        (Some DHE_SUITE) = Inr True
   \<and> key_exchange_alg RSA_SUITE = Some \<lparr>is_ephemeral = False\<rparr>
   \<and> validate_cipher_suite (security_rule_definitions ! S2N_PERFECT_FORWARD_SECRECY)
        (Some RSA_SUITE) = Inr False"
  using perfect_forward_secrecy_registry [of DHE_SUITE "\<lparr>is_ephemeral = True\<rparr>"]
    perfect_forward_secrecy_registry [of RSA_SUITE "\<lparr>is_ephemeral = False\<rparr>"]
  by (simp add: DHE_SUITE_def RSA_SUITE_def)

text \<open>
  C4, as amended. The selection reads the \<open>rules_total\<close> low-order bits only. It fails
  with \<open>S2N_ERR_SAFETY\<close> when one of these bits is set at an identifier greater than the
  length of the registry, or when more than \<open>max_rules_count\<close> of them are set;
  validating all rules then returns that error and leaves the result as it was. Bits at
  positions \<open>rules_total\<close> and above do not change the selection.
\<close>

theorem selection_failure:
  "((\<exists>i < rules_total. bit (rules policy) i \<and> defs_len < i)
      \<or> max_rules_count < length (set_bits 0 rules_total (rules policy)) \<longrightarrow>
     s2n_security_policy_get_security_rules rules_total defs_len (Some policy) max_rules_count
       = Inl S2N_ERR_SAFETY)
   \<and> ((\<exists>i < rules_total. bit (rules policy) i \<and> length defs < i) \<longrightarrow>
     s2n_security_policy_validate_security_rules defs rules_total mem (Some policy) result
       = Some (S2N_RESULT_ERROR S2N_ERR_SAFETY, result))
   \<and> s2n_security_policy_get_security_rules rules_total defs_len
        (Some (policy\<lparr>rules := take_bit rules_total (rules policy)\<rparr>)) max_rules_count
       = s2n_security_policy_get_security_rules rules_total defs_len (Some policy) max_rules_count"
proof (intro conjI impI)
  assume "(\<exists>i < rules_total. bit (rules policy) i \<and> defs_len < i)
      \<or> max_rules_count < length (set_bits 0 rules_total (rules policy))"
  then have "\<not> ((\<forall>i \<in> set (set_bits 0 rules_total (rules policy)). i \<le> defs_len)
         \<and> length (set_bits 0 rules_total (rules policy)) \<le> max_rules_count)"
    by (auto simp: set_bits_def)
  then show "s2n_security_policy_get_security_rules rules_total defs_len (Some policy) max_rules_count
       = Inl S2N_ERR_SAFETY"
    by (simp only: get_security_rules_eq if_False)
next
  assume "\<exists>i < rules_total. bit (rules policy) i \<and> length defs < i"
  then have "\<not> (\<forall>i \<in> set (set_bits 0 rules_total (rules policy)). i \<le> length defs)"
    by (auto simp: set_bits_def)
  then show "s2n_security_policy_validate_security_rules defs rules_total mem (Some policy) result
       = Some (S2N_RESULT_ERROR S2N_ERR_SAFETY, result)"
    by (simp only: validate_security_rules_eq if_False)
next
  show "s2n_security_policy_get_security_rules rules_total defs_len
        (Some (policy\<lparr>rules := take_bit rules_total (rules policy)\<rparr>)) max_rules_count
       = s2n_security_policy_get_security_rules rules_total defs_len (Some policy) max_rules_count"
    by (simp add: get_security_rules_eq set_bits_take_bit)
qed

theorem selection_failure_witness:
  "s2n_security_policy_get_security_rules 4 2 (Some (test_all_ciphers\<lparr>rules := 8\<rparr>)) 4
     = Inl S2N_ERR_SAFETY
   \<and> s2n_security_policy_get_security_rules 4 4 (Some (test_all_ciphers\<lparr>rules := 3\<rparr>)) 1
     = Inl S2N_ERR_SAFETY
   \<and> s2n_security_policy_validate_security_rules
       [perfect_forward_secrecy, perfect_forward_secrecy] 4 unlimited
       (Some (test_all_ciphers\<lparr>rules := 8\<rparr>)) (Some capturing)
     = Some (S2N_RESULT_ERROR S2N_ERR_SAFETY, Some capturing)"
proof -
  have a: "\<exists>i < (4::nat). bit (rules (test_all_ciphers\<lparr>rules := 8\<rparr>)) i \<and> (2::nat) < i"
    by (rule exI [of _ 3]) simp
  have b: "(1::nat) < length (set_bits 0 4 (rules (test_all_ciphers\<lparr>rules := 3\<rparr>)))"
    by (simp add: set_bits_4_3)
  have c: "\<exists>i < (4::nat). bit (rules (test_all_ciphers\<lparr>rules := 8\<rparr>)) i
      \<and> length [perfect_forward_secrecy, perfect_forward_secrecy] < i"
    by (rule exI [of _ 3]) simp
  from selection_failure [of 4 "test_all_ciphers\<lparr>rules := 8\<rparr>" 2 4
      "[perfect_forward_secrecy, perfect_forward_secrecy]" unlimited "Some capturing"]
    selection_failure [of 4 "test_all_ciphers\<lparr>rules := 3\<rparr>" 4 1]
    a b c
  show ?thesis by blast
qed

text \<open>
  C4 as stated fails: with the registry of one rule, the policy whose rules are 2 has bit 1
  set, 1 is not an identifier of the registry, and yet the selection succeeds with no rule
  and validating all rules succeeds.
\<close>

theorem selection_ignores_high_bits_counterexample:
  "bit (rules (test_all_ciphers\<lparr>rules := 2\<rparr>)) 1
   \<and> \<not> 1 < length security_rule_definitions
   \<and> s2n_security_policy_get_security_rules S2N_SECURITY_RULES_COUNT
       (length security_rule_definitions) (Some (test_all_ciphers\<lparr>rules := 2\<rparr>))
       S2N_SECURITY_RULES_COUNT = Inr []
   \<and> s2n_security_policy_validate_security_rules security_rule_definitions
       S2N_SECURITY_RULES_COUNT unlimited (Some (test_all_ciphers\<lparr>rules := 2\<rparr>)) (Some capturing)
     = Some (S2N_RESULT_OK, Some capturing)"
  by code_simp

text \<open>
  C5. For a policy with no bit set in its rules, the selection succeeds with the empty list
  of rules, and validating all rules succeeds and leaves the result as it was: the flag
  is not set and no text is appended.
\<close>

theorem no_rules_enabled:
  "rules policy = 0 \<Longrightarrow>
     s2n_security_policy_get_security_rules rules_total defs_len (Some policy) max_rules_count
       = Inr []
     \<and> s2n_security_policy_validate_security_rules defs rules_total mem (Some policy) result
       = Some (S2N_RESULT_OK, result)"
  by (simp add: s2n_security_policy_get_security_rules_def
        s2n_security_policy_validate_security_rules_def
        get_security_rules_loop_eq [where ?flags0.0 = 0] set_bits_zero)

theorem no_rules_enabled_witness:
  "rules (test_all_ciphers\<lparr>rules := 0\<rparr>) = 0
   \<and> s2n_security_policy_get_security_rules S2N_SECURITY_RULES_COUNT
        (length security_rule_definitions) (Some (test_all_ciphers\<lparr>rules := 0\<rparr>))
        S2N_SECURITY_RULES_COUNT = Inr []
   \<and> s2n_security_policy_validate_security_rules security_rule_definitions
        S2N_SECURITY_RULES_COUNT unlimited (Some (test_all_ciphers\<lparr>rules := 0\<rparr>)) (Some capturing)
       = Some (S2N_RESULT_OK, Some capturing)"
  using no_rules_enabled [of "test_all_ciphers\<lparr>rules := 0\<rparr>" S2N_SECURITY_RULES_COUNT
      "length security_rule_definitions" S2N_SECURITY_RULES_COUNT security_rule_definitions
      unlimited "Some capturing"]
  by simp

text \<open>
  C6, as amended. The selection walks the \<open>rules_total\<close> low-order bits of the rules of
  a policy from bit 0 upward. When each of these bits that is set is an identifier of the
  registry, the selection succeeds; the selected identifiers are in ascending order
  without repetition, they are exactly the set bits among the \<open>rules_total\<close> low-order
  bits, and their number is the number of those bits. With at least four identifiers, the
  bit set \<open>{1, 3}\<close> gives \<open>[1, 3]\<close>.
\<close>

theorem selection_low_bits:
  "((\<forall>i < rules_total. bit (rules policy) i \<longrightarrow> i < defs_len) \<longrightarrow>
      rules_total \<le> max_rules_count \<longrightarrow>
      (\<exists>selected.
         s2n_security_policy_get_security_rules rules_total defs_len (Some policy) max_rules_count
           = Inr selected
         \<and> sorted selected \<and> distinct selected
         \<and> set selected = {i. i < rules_total \<and> bit (rules policy) i}
         \<and> length selected = card {i. i < rules_total \<and> bit (rules policy) i}))
   \<and> (4 \<le> rules_total \<longrightarrow> 3 < defs_len \<longrightarrow> rules_total \<le> max_rules_count \<longrightarrow>
        s2n_security_policy_get_security_rules rules_total defs_len
          (Some (policy\<lparr>rules := 10\<rparr>)) max_rules_count = Inr [1, 3])"
proof (intro conjI impI)
  assume valid: "\<forall>i < rules_total. bit (rules policy) i \<longrightarrow> i < defs_len"
    and room: "rules_total \<le> max_rules_count"
  let ?sel = "set_bits 0 rules_total (rules policy)"
  have "\<forall>i \<in> set ?sel. i \<le> defs_len"
    using valid by (auto simp: set_set_bits dest: less_imp_le)
  moreover have "length ?sel \<le> max_rules_count"
    using length_set_bits_le [of 0 rules_total "rules policy"] room by simp
  ultimately have
    "s2n_security_policy_get_security_rules rules_total defs_len (Some policy) max_rules_count
       = Inr ?sel"
    by (simp add: get_security_rules_eq)
  moreover have "sorted ?sel" "distinct ?sel" using sorted_set_bits by blast+
  moreover have "set ?sel = {i. i < rules_total \<and> bit (rules policy) i}"
    by (simp add: set_set_bits)
  moreover have "length ?sel = card {i. i < rules_total \<and> bit (rules policy) i}"
    by (simp add: length_set_bits_card)
  ultimately show "\<exists>selected.
         s2n_security_policy_get_security_rules rules_total defs_len (Some policy) max_rules_count
           = Inr selected
         \<and> sorted selected \<and> distinct selected
         \<and> set selected = {i. i < rules_total \<and> bit (rules policy) i}
         \<and> length selected = card {i. i < rules_total \<and> bit (rules policy) i}"
    by blast
next
  assume big: "4 \<le> rules_total" and len: "3 < defs_len" and room: "rules_total \<le> max_rules_count"
  let ?sel = "set_bits 0 rules_total (10 :: 64 word)"
  have members: "set ?sel = set [1, 3]"
    unfolding set_set_bits bit_10 using big by auto
  have "sorted ?sel" "distinct ?sel" using sorted_set_bits by blast+
  with members have sel: "?sel = [1, 3]"
    by (intro sorted_distinct_set_unique) simp_all
  show "s2n_security_policy_get_security_rules rules_total defs_len
          (Some (policy\<lparr>rules := 10\<rparr>)) max_rules_count = Inr [1, 3]"
    using len big room by (simp add: get_security_rules_eq sel)
qed

theorem selection_low_bits_witness:
  "s2n_security_policy_get_security_rules 4 4 (Some (test_all_ciphers\<lparr>rules := 42\<rparr>)) 4
     = Inr [1, 3]
   \<and> card {i. i < 4 \<and> bit (rules (test_all_ciphers\<lparr>rules := 42\<rparr>)) i} = 2
   \<and> s2n_security_policy_get_security_rules 4 4 (Some (test_all_ciphers\<lparr>rules := 10\<rparr>)) 4
     = Inr [1, 3]"
proof -
  note t = selection_low_bits [of 4 "test_all_ciphers\<lparr>rules := 42\<rparr>" 4 4]
  from t bits_42_low obtain selected where
    sel: "s2n_security_policy_get_security_rules 4 4 (Some (test_all_ciphers\<lparr>rules := 42\<rparr>)) 4
       = Inr selected"
    and len: "length selected = card {i. i < 4 \<and> bit (rules (test_all_ciphers\<lparr>rules := 42\<rparr>)) i}"
    by auto
  from sel select_42 have "selected = [1, 3]" by simp
  with len have card: "card {i. i < 4 \<and> bit (rules (test_all_ciphers\<lparr>rules := 42\<rparr>)) i} = 2"
    by simp
  from selection_low_bits [of 4 test_all_ciphers 4 4]
  have "s2n_security_policy_get_security_rules 4 4 (Some (test_all_ciphers\<lparr>rules := 10\<rparr>)) 4
     = Inr [1, 3]"
    by simp
  with select_42 card show ?thesis by blast
qed

text \<open>
  C6 as stated fails: the number of selected rules is not the number of set bits. With the
  registry of one rule, the rules 2 and the rules 10 (the bit set \<open>{1, 3}\<close>) select
  nothing; with four identifiers, the rules 42 have the bits 1, 3 and 5 set and select
  \<open>[1, 3]\<close>.
\<close>

theorem selection_count_counterexample:
  "bit (rules (test_all_ciphers\<lparr>rules := 2\<rparr>)) 1
   \<and> s2n_security_policy_get_security_rules S2N_SECURITY_RULES_COUNT
       (length security_rule_definitions) (Some (test_all_ciphers\<lparr>rules := 2\<rparr>))
       S2N_SECURITY_RULES_COUNT = Inr []
   \<and> bit (rules (test_all_ciphers\<lparr>rules := 10\<rparr>)) 1
   \<and> bit (rules (test_all_ciphers\<lparr>rules := 10\<rparr>)) 3
   \<and> s2n_security_policy_get_security_rules S2N_SECURITY_RULES_COUNT
       (length security_rule_definitions) (Some (test_all_ciphers\<lparr>rules := 10\<rparr>))
       S2N_SECURITY_RULES_COUNT = Inr []
   \<and> bit (rules (test_all_ciphers\<lparr>rules := 42\<rparr>)) 1
   \<and> bit (rules (test_all_ciphers\<lparr>rules := 42\<rparr>)) 3
   \<and> bit (rules (test_all_ciphers\<lparr>rules := 42\<rparr>)) 5
   \<and> s2n_security_policy_get_security_rules 4 4 (Some (test_all_ciphers\<lparr>rules := 42\<rparr>)) 4
       = Inr [1, 3]"
  by code_simp

text \<open>
  C7, as amended. For the policy named \<^verbatim>\<open>test_all_ciphers\<close> with the Perfect Forward
  Secrecy rule, the cipher suites \<^verbatim>\<open>DHE_SUITE\<close> and \<^verbatim>\<open>RSA_SUITE\<close>, one signature scheme,
  one curve and no certificate signature list, validating all rules succeeds and sets
  the flag; with capture enabled the text is the single line
  \<^verbatim>\<open>Perfect Forward Secrecy: policy test_all_ciphers: cipher suite: RSA_SUITE (#2)\<close>
  followed by a line break.
\<close>

theorem test_all_ciphers_report:
  "s2n_security_policy_validate_security_rules security_rule_definitions
     S2N_SECURITY_RULES_COUNT unlimited (Some (pfs_policy sig_scheme curve)) (Some capturing)
     = Some (S2N_RESULT_OK,
         Some \<lparr>found_error = True, write_output = True,
               output = \<lparr>data =
                 ''Perfect Forward Secrecy: policy test_all_ciphers: cipher suite: RSA_SUITE (#2)''
                   @ [CHR 0x0A],
                 growable = True\<rparr>\<rparr>)
   \<and> s2n_security_policy_validate_security_rules security_rule_definitions
     S2N_SECURITY_RULES_COUNT unlimited (Some (pfs_policy sig_scheme curve))
     (Some s2n_security_rule_result_zero)
     = Some (S2N_RESULT_OK,
         Some \<lparr>found_error = True, write_output = False, output = s2n_stuffer_zero\<rparr>)"
  by (simp add: validate_security_rules_eq pfs_policy_def set_bits_one
        security_rule_definitions_def perfect_forward_secrecy_def
        s2n_security_rule_validate_policy_def s2n_security_policy_get_version_def
        validate_cipher_prefs_def validate_sig_prefs_def validate_cert_sig_prefs_def
        validate_ecc_prefs_def s2n_security_rule_validate_forward_secret_def
        s2n_security_rule_all_sig_schemes_def s2n_security_rule_all_curves_def
        DHE_SUITE_def RSA_SUITE_def s2n_security_rule_result_process_def capturing_def
        s2n_security_rule_result_zero_def s2n_stuffer_zero_def
        s2n_stuffer_vprintf_def s2n_stuffer_write_char_def s2n_stuffer_write_def unlimited_def
        error_msg_format_name_def printf_i_2 Let_def)

theorem test_all_ciphers_report_witness:
  "s2n_security_policy_validate_security_rules security_rule_definitions
     S2N_SECURITY_RULES_COUNT unlimited (Some test_all_ciphers)
     (Some s2n_security_rule_result_zero)
     = Some (S2N_RESULT_OK,
         Some \<lparr>found_error = True, write_output = False, output = s2n_stuffer_zero\<rparr>)"
  using test_all_ciphers_report [of "\<lparr>iana_value = 0x0403\<rparr>" "\<lparr>curve_name = ''secp256r1''\<rparr>"]
  by (simp add: pfs_policy_def test_all_ciphers_def)

text \<open>
  C7 as stated fails: the text that is written has a colon between the category and the
  value and ends with a line break; it is not the line of the claim, with or without a
  line break after it.
\<close>

theorem test_all_ciphers_line_counterexample:
  "s2n_security_policy_validate_security_rules security_rule_definitions
     S2N_SECURITY_RULES_COUNT unlimited (Some test_all_ciphers) (Some capturing)
     = Some (S2N_RESULT_OK,
         Some \<lparr>found_error = True, write_output = True,
               output = \<lparr>data =
                 ''Perfect Forward Secrecy: policy test_all_ciphers: cipher suite: RSA_SUITE (#2)''
                   @ [CHR 0x0A],
                 growable = True\<rparr>\<rparr>)
   \<and> ''Perfect Forward Secrecy: policy test_all_ciphers: cipher suite: RSA_SUITE (#2)''
         @ [CHR 0x0A]
       \<noteq> ''Perfect Forward Secrecy: policy test_all_ciphers: cipher suite RSA_SUITE (#2)''
   \<and> ''Perfect Forward Secrecy: policy test_all_ciphers: cipher suite: RSA_SUITE (#2)''
         @ [CHR 0x0A]
       \<noteq> ''Perfect Forward Secrecy: policy test_all_ciphers: cipher suite RSA_SUITE (#2)''
         @ [CHR 0x0A]"
  by code_simp




text \<open>
  C9. Recording a valid entry leaves the result as it was: the flag, the capture switch and
  the buffer. Recording an invalid entry on a result that does not capture sets the flag
  and nothing else; the outcome depends neither on the message nor on the allocator, so
  nothing is formatted, written or allocated.
\<close>

theorem record_frame:
  "s2n_security_rule_result_process mem (Some r) True text = (S2N_RESULT_OK, Some r)
   \<and> (\<not> write_output r \<longrightarrow>
        s2n_security_rule_result_process mem (Some r) False text
          = (S2N_RESULT_OK, Some (r\<lparr>found_error := True\<rparr>)))"
  by (simp add: process_valid process_silent)

theorem record_frame_witness:
  "\<not> write_output s2n_security_rule_result_zero
   \<and> s2n_security_rule_result_process unlimited (Some s2n_security_rule_result_zero) False ''x''
       = (S2N_RESULT_OK, Some \<lparr>found_error = True, write_output = False, output = s2n_stuffer_zero\<rparr>)
   \<and> s2n_security_rule_result_process unlimited (Some capturing) True ''x''
       = (S2N_RESULT_OK, Some capturing)"
  using record_frame [of unlimited s2n_security_rule_result_zero "''x''"]
    record_frame [of unlimited capturing "''x''"]
  by (simp add: s2n_security_rule_result_zero_def)

text \<open>
  C10. Once the flag \<open>found_error\<close> is set, recording a verdict, validating a rule and
  validating all active rules leave it set, whether they succeed or return an error, and
  so does enabling capture; releasing the result resets it. Validating all rules returns
  whenever the registry has an entry for each of the \<open>rules_total\<close> identifiers.
\<close>

theorem found_error_monotone:
  "found_error r \<Longrightarrow>
     (\<exists>s r1. s2n_security_rule_result_process mem (Some r) condition text = (s, Some r1)
        \<and> found_error r1)
   \<and> (\<exists>s r1. s2n_security_rule_validate_policy mem rule policy (Some r) = (s, Some r1)
        \<and> found_error r1)
   \<and> (\<forall>out. s2n_security_policy_validate_security_rules defs rules_total mem policy (Some r)
          = Some out \<longrightarrow> (\<exists>s r1. out = (s, Some r1) \<and> found_error r1))
   \<and> (rules_total \<le> length defs \<longrightarrow>
        s2n_security_policy_validate_security_rules defs rules_total mem policy (Some r) \<noteq> None)
   \<and> (\<exists>r1. s2n_security_rule_result_init_output (Some r) = Some (S2N_RESULT_OK, Some r1)
        \<and> found_error r1)
   \<and> (\<exists>r1. s2n_security_rule_result_free (Some r) = Some (S2N_RESULT_OK, Some r1)
        \<and> \<not> found_error r1)"
proof (intro conjI allI impI)
  assume fe: "found_error r"
  show "\<exists>s r1. s2n_security_rule_result_process mem (Some r) condition text = (s, Some r1)
          \<and> found_error r1"
    using keeps_found_errorD [OF keeps_process fe] .
  show "\<exists>s r1. s2n_security_rule_validate_policy mem rule policy (Some r) = (s, Some r1)
          \<and> found_error r1"
    using keeps_found_errorD [OF keeps_validate_policy fe] .
  show "\<exists>r1. s2n_security_rule_result_init_output (Some r) = Some (S2N_RESULT_OK, Some r1)
          \<and> found_error r1"
    using fe
    by (simp add: s2n_security_rule_result_init_output_def s2n_stuffer_growable_alloc_def)
  show "\<exists>r1. s2n_security_rule_result_free (Some r) = Some (S2N_RESULT_OK, Some r1)
          \<and> \<not> found_error r1"
    by (simp add: s2n_security_rule_result_free_def s2n_stuffer_free_def
          s2n_security_rule_result_zero_def)
next
  fix out
  assume "found_error r"
    and "s2n_security_policy_validate_security_rules defs rules_total mem policy (Some r) = Some out"
  then show "\<exists>s r1. out = (s, Some r1) \<and> found_error r1"
    by (rule keeps_validate_security_rules)
next
  assume "rules_total \<le> length defs"
  from validate_security_rules_defined [OF this]
  show "s2n_security_policy_validate_security_rules defs rules_total mem policy (Some r) \<noteq> None"
    by auto
qed

theorem found_error_monotone_witness:
  "found_error (capturing\<lparr>found_error := True\<rparr>)
   \<and> (\<exists>s r1. s2n_security_rule_result_process unlimited
         (Some (capturing\<lparr>found_error := True\<rparr>)) True ''x'' = (s, Some r1) \<and> found_error r1)
   \<and> (\<exists>s r1. s2n_security_rule_validate_policy unlimited (Some perfect_forward_secrecy)
         (Some (test_all_ciphers\<lparr>cipher_preferences := None\<rparr>))
         (Some (capturing\<lparr>found_error := True\<rparr>)) = (s, Some r1) \<and> found_error r1)
   \<and> (\<exists>s r1. s2n_security_policy_validate_security_rules security_rule_definitions
         S2N_SECURITY_RULES_COUNT unlimited (Some test_all_ciphers)
         (Some (capturing\<lparr>found_error := True\<rparr>)) = Some (s, Some r1) \<and> found_error r1)
   \<and> s2n_security_rule_result_free (Some (capturing\<lparr>found_error := True\<rparr>))
       = Some (S2N_RESULT_OK, Some s2n_security_rule_result_zero)
   \<and> \<not> found_error s2n_security_rule_result_zero"
proof -
  have fe: "found_error (capturing\<lparr>found_error := True\<rparr>)" by simp
  have free: "s2n_security_rule_result_free (Some (capturing\<lparr>found_error := True\<rparr>))
       = Some (S2N_RESULT_OK, Some s2n_security_rule_result_zero)"
    by (simp add: s2n_security_rule_result_free_def s2n_stuffer_free_def)
  have zero: "\<not> found_error s2n_security_rule_result_zero"
    by (simp add: s2n_security_rule_result_zero_def)
  from found_error_monotone [OF fe, of unlimited True "''x''"]
    found_error_monotone [OF fe, of unlimited _ _ "Some perfect_forward_secrecy"
      "Some (test_all_ciphers\<lparr>cipher_preferences := None\<rparr>)"]
    found_error_monotone [OF fe, of unlimited _ _ _ "Some test_all_ciphers"
      security_rule_definitions S2N_SECURITY_RULES_COUNT]
    registry_complete fe free zero
  show ?thesis by (intro conjI) blast+
qed

end
